theory Spec2Isabelle
  imports Complex_Main
begin

section \<open>Common ground: errors, JSON scalars, strconv\<close>

text \<open>
  The exporter is written in Go. Its packages are embedded as follows.
  \<^item> A Go \<open>string\<close> is a \<^typ>\<open>string\<close>; one \<^typ>\<open>char\<close> stands for one character of
    the Go string (the regular expressions of the program work per character).
  \<^item> \<open>int64\<close> and \<open>time.Duration\<close> values are integers of \<^typ>\<open>int\<close>; where the program
    computes with them, the wrap-around of the 64-bit two's complement is written out
    (\<open>wrap64\<close>).
  \<^item> A \<open>float64\<close> that the program subtracts and compares (the cumulative energies, their
    stored values and their deltas) is a value of the datatype \<open>float64\<close> below, with the
    comparisons of IEEE 754 and with the subtraction, which rounds, as a parameter of the
    model. A \<open>float64\<close> that the program only stores in a gauge is the \<^typ>\<open>real\<close>
    number it stands for.
  \<^item> An \<open>error\<close> result is a value of the datatype \<open>error\<close>; a method with a pointer
    receiver takes the receiver's value and returns the error (if any) with the new
    value.
\<close>

datatype strconv_err = ErrSyntax | ErrRange

datatype error =
    UnmarshalTypeError
      \<comment> \<open>\<open>json.Unmarshal(b, &s)\<close> on a JSON value that is not a string\<close>
  | NumError string strconv_err
      \<comment> \<open>\<open>strconv.ParseInt\<close>: the input and the reason\<close>
  | UnknownEnum string string
      \<comment> \<open>\<open>fmt.Errorf("unknown <type> %q", s)\<close>: the name of the type and the string\<close>
  | NoLayoutMatched string
      \<comment> \<open>\<open>fmt.Errorf("no layout matched timestamp %q", s)\<close>\<close>
  | VersionUnexpected string
      \<comment> \<open>\<open>fmt.Errorf("version %q unexpected, want A.B.C", status.Version)\<close>\<close>
  | LibraryError string
      \<comment> \<open>an error of the standard library or of the transport, with its text\<close>
  | NilMapPanic
      \<comment> \<open>the run-time panic of an assignment to an entry of a nil map\<close>

text \<open>
  The JSON value handed to an \<open>UnmarshalJSON\<close> method. Every codec starts with
  \<open>json.Unmarshal(b, &s)\<close> for a string \<open>s\<close>: a JSON string gives its content, the
  JSON \<open>null\<close> leaves \<open>s\<close> empty, and any other value is an error.
\<close>

datatype json = JString string | JNull | JOther

fun unmarshalString :: "json \<Rightarrow> error + string" where
  "unmarshalString (JString s) = Inr s"
| "unmarshalString JNull = Inr []"
| "unmarshalString JOther = Inl UnmarshalTypeError"

definition isDigit :: "char \<Rightarrow> bool" where
  "isDigit c = (c \<in> set ''0123456789'')"

definition digitVal :: "char \<Rightarrow> int" where
  "digitVal c = of_char c - 48"

definition digitsVal :: "string \<Rightarrow> int" where
  "digitsVal ds = foldl (\<lambda>acc c. acc * 10 + digitVal c) 0 ds"

text \<open>
  \<open>strconv.ParseInt(s, 10, 64)\<close>: an optional sign, then one or more decimal digits;
  a value outside the range of \<open>int64\<close> is a range error.
\<close>

definition ParseInt :: "string \<Rightarrow> error + int" where
  "ParseInt s =
     (if s = [] then Inl (NumError s ErrSyntax)
      else
        let neg = (hd s = CHR ''-'');
            ds = (if hd s = CHR ''+'' \<or> hd s = CHR ''-'' then tl s else s)
        in if ds = [] \<or> \<not> list_all isDigit ds then Inl (NumError s ErrSyntax)
           else
             let n = digitsVal ds
             in if \<not> neg \<and> 2 ^ 63 \<le> n then Inl (NumError s ErrRange)
                else if neg \<and> 2 ^ 63 < n then Inl (NumError s ErrRange)
                else Inr (if neg then - n else n))"

definition wrap64 :: "int \<Rightarrow> int" where
  "wrap64 x = (x + 2 ^ 63) mod 2 ^ 64 - 2 ^ 63"

text \<open>
  A \<open>float64\<close> by its value: a finite one is the real number it stands for (both zeros
  are \<open>Finite 0\<close>), and there are the two infinities and NaN. The comparisons \<open><\<close> and
  \<open><=\<close> of IEEE 754 are exact in the values: \<open>flt\<close> and \<open>fle\<close>; a comparison with NaN is
  false. The subtraction of two \<open>float64\<close> rounds its result to the nearest \<open>float64\<close>; the
  model does not define it but takes it as the parameter \<open>fsub\<close> of the functions that
  subtract, so that what is proved of them holds for the subtraction of IEEE 754.
\<close>

datatype float64 = Finite real | PosInf | NegInf | NaN

fun flt :: "float64 \<Rightarrow> float64 \<Rightarrow> bool" where
  "flt (Finite a) (Finite b) = (a < b)"
| "flt (Finite a) PosInf = True"
| "flt NegInf (Finite b) = True"
| "flt NegInf PosInf = True"
| "flt x y = False"

fun fle :: "float64 \<Rightarrow> float64 \<Rightarrow> bool" where
  "fle (Finite a) (Finite b) = (a \<le> b)"
| "fle (Finite a) PosInf = True"
| "fle NegInf (Finite b) = True"
| "fle NegInf PosInf = True"
| "fle NegInf NegInf = True"
| "fle PosInf PosInf = True"
| "fle x y = False"

section \<open>Package powerwall: the enumerations\<close>

datatype NetworkInterface = Ethernet | Cellular | Wifi

definition stringToInterface :: "string \<rightharpoonup> NetworkInterface" where
  "stringToInterface =
     [''EthType'' \<mapsto> Ethernet, ''GsmType'' \<mapsto> Cellular, ''WifiType'' \<mapsto> Wifi]"

fun NetworkInterface_String :: "NetworkInterface \<Rightarrow> string" where
  "NetworkInterface_String Ethernet = ''ethernet''"
| "NetworkInterface_String Cellular = ''cellular''"
| "NetworkInterface_String Wifi = ''wifi''"

text \<open>
  \<open>*n, ok = stringToInterface[s]\<close> stores the zero value (the first constant) when the
  key is missing, and the method then returns the error.
\<close>

definition NetworkInterface_UnmarshalJSON ::
  "NetworkInterface \<Rightarrow> json \<Rightarrow> error option \<times> NetworkInterface" where
  "NetworkInterface_UnmarshalJSON n b =
     (case unmarshalString b of
        Inl err \<Rightarrow> (Some err, n)
      | Inr s \<Rightarrow>
          (case stringToInterface s of
             None \<Rightarrow> (Some (UnknownEnum ''NetworkInterface'' s), Ethernet)
           | Some v \<Rightarrow> (None, v)))"

datatype OperatingMode = Backup | SelfConsumption | Autonomous | Scheduler | SiteControl

fun OperatingMode_String :: "OperatingMode \<Rightarrow> string" where
  "OperatingMode_String Backup = ''Backup''"
| "OperatingMode_String SelfConsumption = ''Self Consumption''"
| "OperatingMode_String Autonomous = ''Autonomous''"
| "OperatingMode_String Scheduler = ''Scheduler''"
| "OperatingMode_String SiteControl = ''SiteControl''"

definition stringToOperatingMode :: "string \<rightharpoonup> OperatingMode" where
  "stringToOperatingMode =
     [''backup'' \<mapsto> Backup, ''self_consumption'' \<mapsto> SelfConsumption,
      ''autonomous'' \<mapsto> Autonomous, ''scheduler'' \<mapsto> Scheduler,
      ''site_control'' \<mapsto> SiteControl]"

definition OperatingMode_UnmarshalJSON ::
  "OperatingMode \<Rightarrow> json \<Rightarrow> error option \<times> OperatingMode" where
  "OperatingMode_UnmarshalJSON n b =
     (case unmarshalString b of
        Inl err \<Rightarrow> (Some err, n)
      | Inr s \<Rightarrow>
          (case stringToOperatingMode s of
             None \<Rightarrow> (Some (UnknownEnum ''OperatingMode'' s), Backup)
           | Some v \<Rightarrow> (None, v)))"

datatype SystemStatus = GridConnected | IslandedReady | IslandedActive | TransitionToGrid

fun SystemStatus_String :: "SystemStatus \<Rightarrow> string" where
  "SystemStatus_String GridConnected = ''GridConnected''"
| "SystemStatus_String IslandedReady = ''IslandedReady''"
| "SystemStatus_String IslandedActive = ''IslandedActive''"
| "SystemStatus_String TransitionToGrid = ''TransitionToGrid''"

definition stringToSystemStatus :: "string \<rightharpoonup> SystemStatus" where
  "stringToSystemStatus =
     [''SystemGridConnected'' \<mapsto> GridConnected, ''SystemIslandedReady'' \<mapsto> IslandedReady,
      ''SystemIslandedActive'' \<mapsto> IslandedActive,
      ''SystemTransitionToGrid'' \<mapsto> TransitionToGrid]"

definition SystemStatus_UnmarshalJSON ::
  "SystemStatus \<Rightarrow> json \<Rightarrow> error option \<times> SystemStatus" where
  "SystemStatus_UnmarshalJSON s b =
     (case unmarshalString b of
        Inl err \<Rightarrow> (Some err, s)
      | Inr j \<Rightarrow>
          (case stringToSystemStatus j of
             None \<Rightarrow> (Some (UnknownEnum ''SystemStatus'' j), GridConnected)
           | Some v \<Rightarrow> (None, v)))"

datatype GridState = Compliant | Qualifying | Uncompliant

definition stringToGridState :: "string \<rightharpoonup> GridState" where
  "stringToGridState =
     [''Grid_Compliant'' \<mapsto> Compliant, ''Grid_Qualifying'' \<mapsto> Qualifying,
      ''Grid_Uncompliant'' \<mapsto> Uncompliant]"

fun GridState_String :: "GridState \<Rightarrow> string" where
  "GridState_String Compliant = ''Complaint''"
| "GridState_String Qualifying = ''Qualifying''"
| "GridState_String Uncompliant = ''Uncompliant''"

definition GridState_UnmarshalJSON :: "GridState \<Rightarrow> json \<Rightarrow> error option \<times> GridState" where
  "GridState_UnmarshalJSON g b =
     (case unmarshalString b of
        Inl err \<Rightarrow> (Some err, g)
      | Inr s \<Rightarrow>
          (case stringToGridState s of
             None \<Rightarrow> (Some (UnknownEnum ''GridState'' s), Compliant)
           | Some v \<Rightarrow> (None, v)))"

subsection \<open>The enumeration codecs\<close>

lemma NetworkInterface_String_inj: "inj NetworkInterface_String"
proof (rule injI)
  fix x y
  assume "NetworkInterface_String x = NetworkInterface_String y"
  then show "x = y" by (cases x; cases y) simp_all
qed

lemma OperatingMode_String_inj: "inj OperatingMode_String"
proof (rule injI)
  fix x y
  assume "OperatingMode_String x = OperatingMode_String y"
  then show "x = y" by (cases x; cases y) simp_all
qed

lemma SystemStatus_String_inj: "inj SystemStatus_String"
proof (rule injI)
  fix x y
  assume "SystemStatus_String x = SystemStatus_String y"
  then show "x = y" by (cases x; cases y) simp_all
qed

lemma GridState_String_inj: "inj GridState_String"
proof (rule injI)
  fix x y
  assume "GridState_String x = GridState_String y"
  then show "x = y" by (cases x; cases y) simp_all
qed

text \<open>
  Claim C7. For each of the four enumerations (NetworkInterface, OperatingMode,
  SystemStatus, GridState): a JSON string that is a key of the table decodes, without
  error, to exactly the value the table maps it to; a JSON string that is not a key of
  the table (the lookup compares the strings as they are, so a different case is a
  different string) fails with the error that carries the name of the enumeration and the
  raw string; and the display strings of the values are pairwise distinct.
\<close>

theorem enum_codecs:
  "(\<forall>tok v. stringToInterface tok = Some v \<longrightarrow>
      NetworkInterface_UnmarshalJSON n (JString tok) = (None, v)) \<and>
   (\<forall>s. stringToInterface s = None \<longrightarrow>
      NetworkInterface_UnmarshalJSON n (JString s)
        = (Some (UnknownEnum ''NetworkInterface'' s), Ethernet)) \<and>
   inj NetworkInterface_String \<and>
   (\<forall>tok v. stringToOperatingMode tok = Some v \<longrightarrow>
      OperatingMode_UnmarshalJSON m (JString tok) = (None, v)) \<and>
   (\<forall>s. stringToOperatingMode s = None \<longrightarrow>
      OperatingMode_UnmarshalJSON m (JString s)
        = (Some (UnknownEnum ''OperatingMode'' s), Backup)) \<and>
   inj OperatingMode_String \<and>
   (\<forall>tok v. stringToSystemStatus tok = Some v \<longrightarrow>
      SystemStatus_UnmarshalJSON st (JString tok) = (None, v)) \<and>
   (\<forall>s. stringToSystemStatus s = None \<longrightarrow>
      SystemStatus_UnmarshalJSON st (JString s)
        = (Some (UnknownEnum ''SystemStatus'' s), GridConnected)) \<and>
   inj SystemStatus_String \<and>
   (\<forall>tok v. stringToGridState tok = Some v \<longrightarrow>
      GridState_UnmarshalJSON g (JString tok) = (None, v)) \<and>
   (\<forall>s. stringToGridState s = None \<longrightarrow>
      GridState_UnmarshalJSON g (JString s)
        = (Some (UnknownEnum ''GridState'' s), Compliant)) \<and>
   inj GridState_String"
  by (simp add: NetworkInterface_UnmarshalJSON_def OperatingMode_UnmarshalJSON_def
      SystemStatus_UnmarshalJSON_def GridState_UnmarshalJSON_def
      NetworkInterface_String_inj OperatingMode_String_inj SystemStatus_String_inj
      GridState_String_inj)

theorem enum_codecs_witness:
  "NetworkInterface_UnmarshalJSON Wifi (JString ''GsmType'') = (None, Cellular) \<and>
   NetworkInterface_UnmarshalJSON Wifi (JString ''gsmtype'')
     = (Some (UnknownEnum ''NetworkInterface'' ''gsmtype''), Ethernet) \<and>
   OperatingMode_UnmarshalJSON Backup (JString ''self_consumption'') = (None, SelfConsumption) \<and>
   OperatingMode_UnmarshalJSON Scheduler (JString ''Backup'')
     = (Some (UnknownEnum ''OperatingMode'' ''Backup''), Backup) \<and>
   SystemStatus_UnmarshalJSON GridConnected (JString ''SystemIslandedActive'')
     = (None, IslandedActive) \<and>
   SystemStatus_UnmarshalJSON IslandedReady (JString ''IslandedActive'')
     = (Some (UnknownEnum ''SystemStatus'' ''IslandedActive''), GridConnected) \<and>
   GridState_UnmarshalJSON Compliant (JString ''Grid_Uncompliant'') = (None, Uncompliant) \<and>
   GridState_UnmarshalJSON Qualifying (JString [])
     = (Some (UnknownEnum ''GridState'' []), Compliant)"
proof -
  have a: "stringToInterface ''GsmType'' = Some Cellular"
    and b: "stringToInterface ''gsmtype'' = None"
    by (simp_all add: stringToInterface_def)
  have c: "stringToOperatingMode ''self_consumption'' = Some SelfConsumption"
    and d: "stringToOperatingMode ''Backup'' = None"
    by (simp_all add: stringToOperatingMode_def)
  have e: "stringToSystemStatus ''SystemIslandedActive'' = Some IslandedActive"
    and f: "stringToSystemStatus ''IslandedActive'' = None"
    by (simp_all add: stringToSystemStatus_def)
  have g: "stringToGridState ''Grid_Uncompliant'' = Some Uncompliant"
    and h: "stringToGridState [] = None"
    by (simp_all add: stringToGridState_def)
  note t = enum_codecs [of Wifi Backup GridConnected Compliant]
  note t' = enum_codecs [of Wifi Scheduler IslandedReady Qualifying]
  from t a have "NetworkInterface_UnmarshalJSON Wifi (JString ''GsmType'') = (None, Cellular)"
    by blast
  moreover from t b have "NetworkInterface_UnmarshalJSON Wifi (JString ''gsmtype'')
     = (Some (UnknownEnum ''NetworkInterface'' ''gsmtype''), Ethernet)"
    by blast
  moreover from t c have
    "OperatingMode_UnmarshalJSON Backup (JString ''self_consumption'') = (None, SelfConsumption)"
    by blast
  moreover from t' d have "OperatingMode_UnmarshalJSON Scheduler (JString ''Backup'')
     = (Some (UnknownEnum ''OperatingMode'' ''Backup''), Backup)"
    by blast
  moreover from t e have
    "SystemStatus_UnmarshalJSON GridConnected (JString ''SystemIslandedActive'')
     = (None, IslandedActive)"
    by blast
  moreover from t' f have "SystemStatus_UnmarshalJSON IslandedReady (JString ''IslandedActive'')
     = (Some (UnknownEnum ''SystemStatus'' ''IslandedActive''), GridConnected)"
    by blast
  moreover from t g have
    "GridState_UnmarshalJSON Compliant (JString ''Grid_Uncompliant'') = (None, Uncompliant)"
    by blast
  moreover from t' h have "GridState_UnmarshalJSON Qualifying (JString [])
     = (Some (UnknownEnum ''GridState'' []), Compliant)"
    by blast
  ultimately show ?thesis by blast
qed

section \<open>Package powerwall: the structured-duration codec\<close>

text \<open>
  \<^verbatim>\<open>var uptimeRegex = regexp.MustCompile(
    `((?P<hours>\d+?)h)?((?P<minutes>\d+?)m)?((?P<seconds>\d+?).)((?P<nanoseconds>\d+?)s)`)\<close>

  The expression is not anchored. Go's \<open>regexp\<close> returns the leftmost match and, among
  the matches that start there, the one a backtracking matcher finds first: an optional
  group is tried before it is skipped, and \<open>\d+?\<close> takes as few digits as possible.

  \<open>digitsThen c s\<close> matches \<open>(\d+?)c\<close> at the start of \<open>s\<close> for a letter \<open>c\<close>: since
  \<open>c\<close> is no digit, the digits are the whole run of digits and \<open>c\<close> follows it. The
  result is the captured digits and the rest of the input.
\<close>

definition digitsThen :: "char \<Rightarrow> string \<Rightarrow> (string \<times> string) option" where
  "digitsThen c s =
     (let d = takeWhile isDigit s; r = dropWhile isDigit s
      in if d \<noteq> [] \<and> r \<noteq> [] \<and> hd r = c then Some (d, tl r) else None)"

definition newline :: char where
  "newline = CHR 0x0A"

text \<open>
  \<open>((?P<seconds>\d+?).)((?P<nanoseconds>\d+?)s)\<close>, with the digits \<open>pre\<close> already taken for
  the seconds: the next character is the separator (any character but a newline) if the
  nanoseconds group matches behind it; otherwise, the seconds take one more digit. The
  result is the seconds, the separator and the nanoseconds.
\<close>

fun secondsFrom :: "string \<Rightarrow> string \<Rightarrow> (string \<times> char \<times> string) option" where
  "secondsFrom pre [] = None"
| "secondsFrom pre (c # t) =
     (case (if c = newline then None else digitsThen (CHR ''s'') t) of
        Some (ns, rest) \<Rightarrow> Some (pre, c, ns)
      | None \<Rightarrow> if isDigit c then secondsFrom (pre @ [c]) t else None)"

definition secondsNanos :: "string \<Rightarrow> (string \<times> char \<times> string) option" where
  "secondsNanos s =
     (case s of [] \<Rightarrow> None | c # t \<Rightarrow> if isDigit c then secondsFrom [c] t else None)"

type_synonym uptimeMatch = "string option \<times> string option \<times> string \<times> char \<times> string"

text \<open>The expression from the minutes group on, \<open>h\<close> being the outcome of the hours group.\<close>

definition minutesOn :: "string option \<Rightarrow> string \<Rightarrow> uptimeMatch option" where
  "minutesOn h s =
     (let skipped = map_option (\<lambda>(sec, c, ns). (h, None, sec, c, ns)) (secondsNanos s)
      in case digitsThen (CHR ''m'') s of
           None \<Rightarrow> skipped
         | Some (m, r) \<Rightarrow>
             (case secondsNanos r of
                Some (sec, c, ns) \<Rightarrow> Some (h, Some m, sec, c, ns)
              | None \<Rightarrow> skipped))"

text \<open>The whole expression at the start of \<open>s\<close>.\<close>

definition matchAt :: "string \<Rightarrow> uptimeMatch option" where
  "matchAt s =
     (case digitsThen (CHR ''h'') s of
        None \<Rightarrow> minutesOn None s
      | Some (h, r) \<Rightarrow>
          (case minutesOn (Some h) r of
             Some x \<Rightarrow> Some x
           | None \<Rightarrow> minutesOn None s))"

text \<open>The leftmost match.\<close>

fun uptimeRegex_find :: "string \<Rightarrow> uptimeMatch option" where
  "uptimeRegex_find [] = matchAt []"
| "uptimeRegex_find (c # t) =
     (case matchAt (c # t) of Some x \<Rightarrow> Some x | None \<Rightarrow> uptimeRegex_find t)"

text \<open>
  \<open>FindStringSubmatch\<close> returns the text of the match and of its eight groups, the empty
  string for a group that took no part in the match, and \<open>nil\<close> (no element) when the
  expression does not match.
\<close>

definition submatches :: "uptimeMatch \<Rightarrow> string list" where
  "submatches x =
     (case x of (h, m, sec, c, ns) \<Rightarrow>
        let g1 = (case h of None \<Rightarrow> [] | Some d \<Rightarrow> d @ ''h'');
            g3 = (case m of None \<Rightarrow> [] | Some d \<Rightarrow> d @ ''m'');
            g5 = sec @ [c];
            g7 = ns @ ''s''
        in [g1 @ g3 @ g5 @ g7,
            g1, (case h of None \<Rightarrow> [] | Some d \<Rightarrow> d),
            g3, (case m of None \<Rightarrow> [] | Some d \<Rightarrow> d),
            g5, sec,
            g7, ns])"

definition uptimeRegex_FindStringSubmatch :: "string \<Rightarrow> string list" where
  "uptimeRegex_FindStringSubmatch s =
     (case uptimeRegex_find s of None \<Rightarrow> [] | Some x \<Rightarrow> submatches x)"

definition uptimeRegex_SubexpNames :: "string list" where
  "uptimeRegex_SubexpNames =
     [[], [], ''hours'', [], ''minutes'', [], ''seconds'', [], ''nanoseconds'']"

text \<open>
  The loop \<open>for i, capture := range match\<close> over the captures with their names: an
  unnamed group is skipped, a named one is parsed as an integer and stored under its
  name; the first capture that does not parse ends the method with that error.
\<close>

fun captureLoop ::
  "(string \<times> string) list \<Rightarrow> (string \<rightharpoonup> int) \<Rightarrow> error + (string \<rightharpoonup> int)" where
  "captureLoop [] result = Inr result"
| "captureLoop ((name, capture) # rest) result =
     (if name = [] then captureLoop rest result
      else case ParseInt capture of
             Inl err \<Rightarrow> Inl err
           | Inr icap \<Rightarrow> captureLoop rest (result(name \<mapsto> icap)))"

text \<open>\<open>result[k]\<close> on a Go map: zero for a missing key.\<close>

definition mapGet :: "(string \<rightharpoonup> int) \<Rightarrow> string \<Rightarrow> int" where
  "mapGet result k = (case result k of None \<Rightarrow> 0 | Some v \<Rightarrow> v)"

definition Nanosecond :: int where "Nanosecond = 1"

definition Second :: int where "Second = 1000000000"

definition Minute :: int where "Minute = 60 * Second"

definition Hour :: int where "Hour = 60 * Minute"

text \<open>
  The receiver is the \<open>time.Duration\<close> held by the \<open>Duration\<close> struct, in nanoseconds.
\<close>

definition Duration_UnmarshalJSON :: "int \<Rightarrow> json \<Rightarrow> error option \<times> int" where
  "Duration_UnmarshalJSON d b =
     (case unmarshalString b of
        Inl err \<Rightarrow> (Some err, d)
      | Inr s \<Rightarrow>
          (case captureLoop (zip uptimeRegex_SubexpNames (uptimeRegex_FindStringSubmatch s))
                  Map.empty of
             Inl err \<Rightarrow> (Some err, d)
           | Inr result \<Rightarrow>
               let r = wrap64 (mapGet result ''hours'' * Hour);
                   r = wrap64 (r + wrap64 (mapGet result ''minutes'' * Minute));
                   r = wrap64 (r + wrap64 (mapGet result ''seconds'' * Second));
                   r = wrap64 (r + wrap64 (mapGet result ''nanoseconds'' * Nanosecond))
               in (None, r)))"

subsection \<open>Properties of the structured-duration codec\<close>

lemma takeWhile_all_then:
  "list_all P a \<Longrightarrow> \<not> P x \<Longrightarrow> takeWhile P (a @ x # r) = a \<and> dropWhile P (a @ x # r) = x # r"
  by (induction a) auto

lemma not_isDigit_dot: "\<not> isDigit (CHR ''.'')"
  by (simp add: isDigit_def)

lemma list_all_takeWhile: "list_all P (takeWhile P xs)"
  by (induction xs) auto

lemma digitsThen_SomeD:
  assumes h: "digitsThen c s = Some (a, r)"
  shows "s = a @ c # r \<and> a \<noteq> [] \<and> list_all isDigit a"
proof -
  define d where "d = takeWhile isDigit s"
  define t where "t = dropWhile isDigit s"
  have st: "s = d @ t" by (simp add: d_def t_def)
  from h have f: "d \<noteq> []" "t \<noteq> []" "hd t = c" "a = d" "r = tl t"
    unfolding digitsThen_def Let_def d_def t_def by (auto split: if_splits)
  from f(2,3,5) have t: "t = c # r" by (cases t) auto
  have "list_all isDigit d" unfolding d_def by (rule list_all_takeWhile)
  with st t f(1,4) show ?thesis by simp
qed

lemma digitsThen_SomeI:
  assumes "a \<noteq> []" "list_all isDigit a" "\<not> isDigit c"
  shows "digitsThen c (a @ c # r) = Some (a, r)"
  using assms takeWhile_all_then [of isDigit a c r]
  by (simp add: digitsThen_def)

text \<open>
  The words of the expression, to compare the matcher with: a word of the expression is
  an optional group of digits and \<open>h\<close>, an optional group of digits and \<open>m\<close>, digits,
  one character that is no newline, digits and \<open>s\<close>; the expression matches a string
  when one of its words occurs in it. \<open>uptimeRegex_find\<close> finds a match exactly in the
  strings that the expression matches (\<open>find_None_iff\<close>).
\<close>

definition digits :: "string \<Rightarrow> bool" where
  "digits d = (d \<noteq> [] \<and> list_all isDigit d)"

definition uptimeLanguage :: "string \<Rightarrow> bool" where
  "uptimeLanguage w =
     (\<exists>h m sec c ns.
        w = h @ m @ sec @ [c] @ ns @ ''s'' \<and>
        (h = [] \<or> (\<exists>d. digits d \<and> h = d @ ''h'')) \<and>
        (m = [] \<or> (\<exists>d. digits d \<and> m = d @ ''m'')) \<and>
        digits sec \<and> c \<noteq> newline \<and> digits ns)"

definition uptimeRegex_matches :: "string \<Rightarrow> bool" where
  "uptimeRegex_matches s = (\<exists>pre w post. s = pre @ w @ post \<and> uptimeLanguage w)"

lemma uptimeLanguageI:
  assumes "h = [] \<or> (\<exists>d. digits d \<and> h = d @ ''h'')"
    and "m = [] \<or> (\<exists>d. digits d \<and> m = d @ ''m'')"
    and "digits sec" "c \<noteq> newline" "digits ns"
  shows "uptimeLanguage (h @ m @ sec @ [c] @ ns @ ''s'')"
  unfolding uptimeLanguage_def using assms by blast

lemma not_isDigit_s: "\<not> isDigit (CHR ''s'')"
  by (simp add: isDigit_def)

lemma secondsFrom_sound:
  assumes "secondsFrom pre t = Some (sec, c, ns)" "digits pre"
  shows "\<exists>post. pre @ t = sec @ c # ns @ CHR ''s'' # post \<and> digits sec \<and> c \<noteq> newline \<and> digits ns"
  using assms
proof (induction t arbitrary: pre)
  case Nil
  then show ?case by simp
next
  case (Cons x t)
  show ?case
  proof (cases "if x = newline then None else digitsThen (CHR ''s'') t")
    case (Some r)
    obtain ns' rest where r: "r = (ns', rest)" by (cases r)
    from Some r have nl: "x \<noteq> newline" and d: "digitsThen (CHR ''s'') t = Some (ns', rest)"
      by (auto split: if_splits)
    from Cons.prems(1) Some r have "sec = pre" "c = x" "ns = ns'"
      by simp_all
    with digitsThen_SomeD [OF d] nl Cons.prems(2) show ?thesis
      by (auto simp add: digits_def)
  next
    case None
    with Cons.prems(1) have x: "isDigit x" and s: "secondsFrom (pre @ [x]) t = Some (sec, c, ns)"
      by (auto split: if_splits)
    from Cons.prems(2) x have "digits (pre @ [x])"
      by (simp add: digits_def)
    from Cons.IH [OF s this] show ?thesis by simp
  qed
qed

lemma secondsNanos_sound:
  assumes "secondsNanos s = Some (sec, c, ns)"
  shows "\<exists>post. s = sec @ c # ns @ CHR ''s'' # post \<and> digits sec \<and> c \<noteq> newline \<and> digits ns"
proof (cases s)
  case Nil
  with assms show ?thesis by (simp add: secondsNanos_def)
next
  case (Cons x t)
  with assms have "isDigit x" "secondsFrom [x] t = Some (sec, c, ns)"
    by (auto simp add: secondsNanos_def split: if_splits)
  with secondsFrom_sound [of "[x]" t sec c ns] Cons show ?thesis
    by (simp add: digits_def)
qed

lemma minutesOn_sound:
  assumes "minutesOn h s = Some (h', m, sec, c, ns)"
  shows "\<exists>ms post. s = ms @ sec @ c # ns @ CHR ''s'' # post \<and>
           (ms = [] \<or> (\<exists>d. digits d \<and> ms = d @ ''m'')) \<and>
           digits sec \<and> c \<noteq> newline \<and> digits ns"
proof -
  consider (skip) "secondsNanos s = Some (sec, c, ns)"
    | (take) d r where "digitsThen (CHR ''m'') s = Some (d, r)" "secondsNanos r = Some (sec, c, ns)"
    using assms
    by (auto simp add: minutesOn_def Let_def split: option.splits)
  then show ?thesis
  proof cases
    case skip
    from secondsNanos_sound [OF this] show ?thesis by blast
  next
    case take
    from digitsThen_SomeD [OF take(1)] have "s = (d @ ''m'') @ r" "digits d"
      by (simp_all add: digits_def)
    with secondsNanos_sound [OF take(2)] show ?thesis by blast
  qed
qed

lemma matchAt_sound:
  assumes "matchAt s = Some x"
  shows "\<exists>w post. s = w @ post \<and> uptimeLanguage w"
proof -
  obtain h m sec c ns where x: "x = (h, m, sec, c, ns)" by (cases x)
  consider (skip) h' where "minutesOn h' s = Some (h, m, sec, c, ns)"
    | (take) d r h' where "digitsThen (CHR ''h'') s = Some (d, r)"
        "minutesOn h' r = Some (h, m, sec, c, ns)"
    using assms x by (auto simp add: matchAt_def split: option.splits)
  then show ?thesis
  proof cases
    case skip
    from minutesOn_sound [OF this] obtain ms post where
      "s = ms @ sec @ c # ns @ CHR ''s'' # post"
      "ms = [] \<or> (\<exists>d. digits d \<and> ms = d @ ''m'')" "digits sec" "c \<noteq> newline" "digits ns"
      by blast
    then have "s = ([] @ ms @ sec @ [c] @ ns @ ''s'') @ post"
      and "uptimeLanguage ([] @ ms @ sec @ [c] @ ns @ ''s'')"
      by (simp, intro uptimeLanguageI) simp_all
    then show ?thesis by blast
  next
    case take
    from minutesOn_sound [OF take(2)] obtain ms post where
      r: "r = ms @ sec @ c # ns @ CHR ''s'' # post"
      and f: "ms = [] \<or> (\<exists>d. digits d \<and> ms = d @ ''m'')" "digits sec" "c \<noteq> newline" "digits ns"
      by blast
    from digitsThen_SomeD [OF take(1)] have s: "s = (d @ ''h'') @ r" and d: "digits d"
      by (simp_all add: digits_def)
    have "uptimeLanguage ((d @ ''h'') @ ms @ sec @ [c] @ ns @ ''s'')"
      using f d by (intro uptimeLanguageI) auto
    moreover have "s = ((d @ ''h'') @ ms @ sec @ [c] @ ns @ ''s'') @ post"
      using s r by simp
    ultimately show ?thesis by blast
  qed
qed

lemma find_sound:
  assumes "uptimeRegex_find s = Some x"
  shows "uptimeRegex_matches s"
  using assms
proof (induction s)
  case Nil
  from matchAt_sound [of "[]" x] Nil show ?case
    unfolding uptimeRegex_matches_def by (metis append_Nil uptimeRegex_find.simps(1))
next
  case (Cons a s)
  show ?case
  proof (cases "matchAt (a # s)")
    case (Some y)
    from matchAt_sound [OF this] show ?thesis
      unfolding uptimeRegex_matches_def by (metis append_Nil)
  next
    case None
    with Cons.prems have "uptimeRegex_find s = Some x" by simp
    from Cons.IH [OF this] obtain pre w post where "s = pre @ w @ post" "uptimeLanguage w"
      unfolding uptimeRegex_matches_def by blast
    then have "a # s = (a # pre) @ w @ post \<and> uptimeLanguage w" by simp
    then show ?thesis unfolding uptimeRegex_matches_def by blast
  qed
qed

lemma matchAt_None: "matchAt s = None \<Longrightarrow> secondsNanos s = None"
  by (auto simp add: matchAt_def minutesOn_def Let_def split: option.splits)

lemma find_None_suffix: "uptimeRegex_find (pre @ t) = None \<Longrightarrow> matchAt t = None"
proof (induction pre)
  case Nil
  then show ?case by (cases t) (auto split: option.splits)
next
  case (Cons a pre)
  then show ?case by (auto split: option.splits)
qed

lemma find_complete:
  assumes "uptimeRegex_matches s"
  shows "uptimeRegex_find s \<noteq> None"
proof
  assume n: "uptimeRegex_find s = None"
  from assms obtain pre h m sec c ns post where
    s: "s = pre @ (h @ m @ sec @ [c] @ ns @ ''s'') @ post"
    and f: "digits sec" "c \<noteq> newline" "digits ns"
    unfolding uptimeRegex_matches_def uptimeLanguage_def by blast
  from f(1) have sec: "sec = butlast sec @ [last sec]" and l: "isDigit (last sec)"
    by (simp_all add: digits_def list_all_iff)
  let ?t = "last sec # c # ns @ CHR ''s'' # post"
  have "s = (pre @ h @ m @ butlast sec) @ ?t"
    using s sec by (metis append.assoc append_Cons append_Nil)
  with n have "matchAt ?t = None"
    using find_None_suffix by metis
  then have "secondsNanos ?t = None" by (rule matchAt_None)
  moreover have "digitsThen (CHR ''s'') (ns @ CHR ''s'' # post) = Some (ns, post)"
    using f(3) by (intro digitsThen_SomeI) (simp_all add: digits_def not_isDigit_s)
  ultimately show False
    using l f(2) by (simp add: secondsNanos_def)
qed

lemma find_None_iff: "uptimeRegex_find s = None \<longleftrightarrow> \<not> uptimeRegex_matches s"
proof
  assume "uptimeRegex_find s = None"
  with find_complete [of s] show "\<not> uptimeRegex_matches s" by blast
next
  assume n: "\<not> uptimeRegex_matches s"
  show "uptimeRegex_find s = None"
  proof (cases "uptimeRegex_find s")
    case None
    then show ?thesis .
  next
    case (Some x)
    from find_sound [OF this] n show ?thesis by simp
  qed
qed

lemma wrap64_add_left: "wrap64 (wrap64 a + b) = wrap64 (a + b)"
proof -
  have "((a + 2 ^ 63) mod 2 ^ 64 - 2 ^ 63 + b + 2 ^ 63) mod (2 ^ 64 :: int)
        = ((a + 2 ^ 63) mod 2 ^ 64 + b) mod 2 ^ 64"
    by (simp add: algebra_simps)
  also have "\<dots> = (a + 2 ^ 63 + b) mod 2 ^ 64"
    by (rule mod_add_left_eq)
  finally show ?thesis
    by (simp add: wrap64_def algebra_simps)
qed

lemma wrap64_add_right: "wrap64 (a + wrap64 b) = wrap64 (a + b)"
  using wrap64_add_left [of b a] by (simp add: add.commute)

lemma wrap64_id: "- (2 ^ 63) \<le> x \<Longrightarrow> x < 2 ^ 63 \<Longrightarrow> wrap64 x = x"
  by (simp add: wrap64_def)

lemma captureLoop_all_groups:
  assumes "ParseInt h = Inr hv" "ParseInt m = Inr mv" "ParseInt sec = Inr sv"
    "ParseInt ns = Inr nv"
  shows "captureLoop (zip uptimeRegex_SubexpNames (submatches (Some h, Some m, sec, c, ns)))
           Map.empty
         = Inr [''hours'' \<mapsto> hv, ''minutes'' \<mapsto> mv, ''seconds'' \<mapsto> sv,
                ''nanoseconds'' \<mapsto> nv]"
  using assms by (simp add: uptimeRegex_SubexpNames_def submatches_def Let_def)

text \<open>
  A match without the hours group hands the empty string to \<open>strconv.ParseInt\<close>, which
  rejects it: a duration with seconds only is a decoding error, not five seconds.
\<close>

lemma duration_seconds_only_error:
  "Duration_UnmarshalJSON d (JString ''5.0s'') = (Some (NumError [] ErrSyntax), d)"
  by code_simp

text \<open>
  Claim C3, as the specification states it, fails: the codec does not decode
  \<open>"143h54m32.539257895s"\<close> to exactly 143 hours, 54 minutes and 32 seconds. The
  nanoseconds group is added to the result.
\<close>

theorem duration_nanoseconds_counterexample:
  "Duration_UnmarshalJSON 0 (JString ''143h54m32.539257895s'')
     \<noteq> (None, 143 * Hour + 54 * Minute + 32 * Second)"
  by code_simp

text \<open>
  Claim C3, amended. The codec decodes \<open>"143h54m32.539257895s"\<close> to 143 hours, 54
  minutes, 32 seconds and 539257895 nanoseconds. In general, when the expression matches
  with the hours and the minutes group present and the four named groups parse as
  \<open>int64\<close> values, the result is the sum of the hours, minutes, seconds and nanoseconds,
  each in its unit, in 64-bit arithmetic.
\<close>

theorem duration_all_groups:
  "Duration_UnmarshalJSON d (JString ''143h54m32.539257895s'')
     = (None, 143 * Hour + 54 * Minute + 32 * Second + 539257895 * Nanosecond) \<and>
   (\<forall>h m sec c ns hv mv sv nv.
      uptimeRegex_find s = Some (Some h, Some m, sec, c, ns) \<and>
      ParseInt h = Inr hv \<and> ParseInt m = Inr mv \<and> ParseInt sec = Inr sv \<and>
      ParseInt ns = Inr nv
      \<longrightarrow> Duration_UnmarshalJSON d (JString s)
            = (None, wrap64 (hv * Hour + mv * Minute + sv * Second + nv * Nanosecond)))"
proof (intro conjI allI impI)
  show "Duration_UnmarshalJSON d (JString ''143h54m32.539257895s'')
     = (None, 143 * Hour + 54 * Minute + 32 * Second + 539257895 * Nanosecond)"
    by code_simp
next
  fix h m sec c ns hv mv sv nv
  assume a: "uptimeRegex_find s = Some (Some h, Some m, sec, c, ns) \<and>
      ParseInt h = Inr hv \<and> ParseInt m = Inr mv \<and> ParseInt sec = Inr sv \<and>
      ParseInt ns = Inr nv"
  then have "captureLoop (zip uptimeRegex_SubexpNames (uptimeRegex_FindStringSubmatch s))
           Map.empty
         = Inr [''hours'' \<mapsto> hv, ''minutes'' \<mapsto> mv, ''seconds'' \<mapsto> sv,
                ''nanoseconds'' \<mapsto> nv]"
    by (simp add: uptimeRegex_FindStringSubmatch_def captureLoop_all_groups)
  then show "Duration_UnmarshalJSON d (JString s)
            = (None, wrap64 (hv * Hour + mv * Minute + sv * Second + nv * Nanosecond))"
    by (simp add: Duration_UnmarshalJSON_def mapGet_def wrap64_add_left wrap64_add_right
        add.assoc)
qed

theorem duration_all_groups_witness:
  "Duration_UnmarshalJSON 0 (JString ''1h2m3.4s'') = (None, 3723000000004)"
proof -
  have "uptimeRegex_find ''1h2m3.4s''
          = Some (Some ''1'', Some ''2'', ''3'', CHR ''.'', ''4'') \<and>
      ParseInt ''1'' = Inr 1 \<and> ParseInt ''2'' = Inr 2 \<and> ParseInt ''3'' = Inr 3 \<and>
      ParseInt ''4'' = Inr 4"
    by code_simp
  with duration_all_groups [of 0 "''1h2m3.4s''"]
  have "Duration_UnmarshalJSON 0 (JString ''1h2m3.4s'')
            = (None, wrap64 (1 * Hour + 2 * Minute + 3 * Second + 4 * Nanosecond))"
    by blast
  then show ?thesis
    by (simp add: wrap64_def Hour_def Minute_def Second_def Nanosecond_def)
qed

text \<open>
  Claim C9. For every JSON string that the expression does not match at all, that is in
  which no word of the expression occurs (a string without a seconds group such as
  \<open>"143h54m"\<close>, or any text that is no duration), the codec returns no error and stores
  the zero duration.
\<close>

theorem duration_no_match:
  "\<not> uptimeRegex_matches s \<Longrightarrow> Duration_UnmarshalJSON d (JString s) = (None, 0)"
  by (simp add: find_None_iff [symmetric] Duration_UnmarshalJSON_def
      uptimeRegex_FindStringSubmatch_def mapGet_def wrap64_def)

theorem duration_no_match_witness:
  "Duration_UnmarshalJSON 7 (JString ''143h54m'') = (None, 0) \<and>
   Duration_UnmarshalJSON 7 (JString ''hello'') = (None, 0)"
proof -
  have a: "uptimeRegex_find ''143h54m'' = None" and b: "uptimeRegex_find ''hello'' = None"
    by code_simp+
  have "\<not> uptimeRegex_matches ''143h54m''"
    using a by (rule iffD1 [OF find_None_iff])
  moreover have "\<not> uptimeRegex_matches ''hello''"
    using b by (rule iffD1 [OF find_None_iff])
  ultimately show ?thesis
    using duration_no_match [of "''143h54m''" 7] duration_no_match [of "''hello''" 7]
    by simp
qed

section \<open>Package powerwall: the timezone codec\<close>

text \<open>
  \<open>time.LoadLocation\<close> belongs to the standard library and its result depends on the
  time zone database of the machine: it is a parameter of the model. A location is a
  value of the type \<open>'l\<close>, and the field \<open>loc\<close> of the struct (a pointer) is an optional
  location. The message written with \<open>glog.Errorf\<close> is returned with the result: the
  name reported by the server and the error of \<open>time.LoadLocation\<close>.
\<close>

datatype powerwall_log = Errorf_timezone string error

definition TimeZone_UnmarshalJSON ::
  "(string \<Rightarrow> error + 'l) \<Rightarrow> 'l option \<Rightarrow> json
     \<Rightarrow> error option \<times> 'l option \<times> powerwall_log list" where
  "TimeZone_UnmarshalJSON LoadLocation loc b =
     (case unmarshalString b of
        Inl err \<Rightarrow> (Some err, loc, [])
      | Inr s \<Rightarrow>
          (case LoadLocation s of
             Inl err \<Rightarrow> (None, loc, [Errorf_timezone s err])
           | Inr ld \<Rightarrow> (None, Some ld, [])))"

text \<open>
  For the evaluation at a concrete input: \<open>time.LoadLocation\<close> on a machine without a
  time zone database, where only the empty name and \<open>UTC\<close> are resolved.
\<close>

definition LoadLocation_without_database :: "string \<Rightarrow> error + string" where
  "LoadLocation_without_database name =
     (if name = [] \<or> name = ''UTC'' then Inr ''UTC''
      else Inl (LibraryError (''unknown time zone '' @ name)))"

text \<open>
  Claim C8. For every time zone name, given as a JSON string, that \<open>time.LoadLocation\<close>
  cannot resolve, the codec returns no error, leaves the location of the receiver as it
  was (so a fresh field stays empty) and logs one message that names the zone and the
  reason.
\<close>

theorem timezone_unresolvable:
  "LoadLocation s = Inl err \<Longrightarrow>
   TimeZone_UnmarshalJSON LoadLocation loc (JString s) = (None, loc, [Errorf_timezone s err]) \<and>
   TimeZone_UnmarshalJSON LoadLocation None (JString s) = (None, None, [Errorf_timezone s err])"
  by (simp add: TimeZone_UnmarshalJSON_def)

theorem timezone_unresolvable_witness:
  "TimeZone_UnmarshalJSON LoadLocation_without_database None (JString ''America/New_York'')
     = (None, None,
        [Errorf_timezone ''America/New_York''
           (LibraryError ''unknown time zone America/New_York'')])"
  using timezone_unresolvable [of LoadLocation_without_database "''America/New_York''"
      "LibraryError ''unknown time zone America/New_York''" None]
  by (simp add: LoadLocation_without_database_def)

section \<open>Package powerwall: the timestamp codec\<close>

text \<open>
  A \<open>time.Time\<close>: the instant as seconds since the Unix epoch with the nanoseconds in
  the second, and the offset of its zone in seconds east of UTC. The zero value of
  \<open>time.Time\<close> is January 1 of the year 1, 00:00:00 UTC.
\<close>

record go_time =
  unixSec :: int
  nsec :: int
  zoneOffset :: int

definition zeroTime :: go_time where
  "zeroTime = \<lparr>unixSec = - 62135596800, nsec = 0, zoneOffset = 0\<rparr>"

text \<open>
  \<^verbatim>\<open>var stripFractionalSeconds = regexp.MustCompile("^(.*)\\.\\d+(.*)$")\<close>

  The expression spans the whole string, and \<open>.\<close> matches no newline, so a string with
  a newline has no match. The first group is greedy: it ends at the last full stop that
  a digit follows. \<open>\d+\<close> takes the whole run of digits, and the second group the rest.
  \<open>lastFraction\<close> returns the two groups.
\<close>

fun lastFraction :: "string \<Rightarrow> (string \<times> string) option" where
  "lastFraction [] = None"
| "lastFraction (c # t) =
     (case lastFraction t of
        Some (g1, g2) \<Rightarrow> Some (c # g1, g2)
      | None \<Rightarrow>
          if c = CHR ''.'' \<and> t \<noteq> [] \<and> isDigit (hd t) then Some ([], dropWhile isDigit t)
          else None)"

definition stripFractionalSeconds_FindStringSubmatch :: "string \<Rightarrow> string list" where
  "stripFractionalSeconds_FindStringSubmatch s =
     (if newline \<in> set s then []
      else case lastFraction s of None \<Rightarrow> [] | Some (g1, g2) \<Rightarrow> [s, g1, g2])"

text \<open>
  \<open>if got := stripFractionalSeconds.FindStringSubmatch(s); got != nil { s = got[1] + got[2] }\<close>:
  the string that the layouts are tried on.
\<close>

definition stripped :: "string \<Rightarrow> string" where
  "stripped s =
     (let got = stripFractionalSeconds_FindStringSubmatch s
      in if got \<noteq> [] then got ! 1 @ got ! 2 else s)"

definition layouts :: "string list" where
  "layouts =
     [''2006-01-02T15:04:05-07:00'', ''2006-01-02 15:04:05 -0700'', ''2006-01-02T15:04:05Z'']"

text \<open>
  \<open>time.Parse\<close> belongs to the standard library: it is the parameter \<open>Parse\<close> of the
  model, a function of the layout and the string. The loop over the layouts returns
  with the first layout that parses.
\<close>

fun layoutLoop ::
  "(string \<Rightarrow> string \<Rightarrow> error + go_time) \<Rightarrow> string list \<Rightarrow> string \<Rightarrow> go_time
     \<Rightarrow> error option \<times> go_time" where
  "layoutLoop Parse [] s t = (Some (NoLayoutMatched s), t)"
| "layoutLoop Parse (l # ls) s t =
     (case Parse l s of
        Inr g \<Rightarrow> (None, g)
      | Inl err \<Rightarrow> layoutLoop Parse ls s t)"

definition Time_UnmarshalJSON ::
  "(string \<Rightarrow> string \<Rightarrow> error + go_time) \<Rightarrow> go_time \<Rightarrow> json \<Rightarrow> error option \<times> go_time" where
  "Time_UnmarshalJSON Parse t b =
     (case unmarshalString b of
        Inl err \<Rightarrow> (Some err, t)
      | Inr s \<Rightarrow>
          if s = [] then (None, zeroTime)
          else layoutLoop Parse layouts (stripped s) t)"

text \<open>
  For the evaluation at concrete inputs: the results of \<open>time.Parse\<close> on the timestamp
  of the specification's example, 10:00:00 on July 1, 2019, seven hours west of UTC, in
  the first layout. Every other input is rejected here; the evaluations below hand over
  no other string that \<open>time.Parse\<close> accepts.
\<close>

definition sample_Parse :: "string \<Rightarrow> string \<Rightarrow> error + go_time" where
  "sample_Parse layout s =
     (if layout = ''2006-01-02T15:04:05-07:00'' \<and> s = ''2019-07-01T10:00:00-07:00''
      then Inr \<lparr>unixSec = 1562000400, nsec = 0, zoneOffset = - 25200\<rparr>
      else Inl (LibraryError (''parsing time '' @ s)))"

subsection \<open>Properties of the timestamp codec\<close>

text \<open>
  \<open>lastFraction\<close> against the words of the expression: a result splits the string into
  the first group, a full stop, a run of digits and the second group, where the second
  group does not go on with a digit and no full stop with a digit behind it comes after
  the one found; and there is no result exactly when no full stop of the string has a
  digit behind it.
\<close>

lemma lastFraction_shape:
  assumes "lastFraction s = Some (g1, g2)"
  shows "\<exists>d. digits d \<and> s = g1 @ ''.'' @ d @ g2 \<and> (g2 = [] \<or> \<not> isDigit (hd g2)) \<and>
           lastFraction (d @ g2) = None"
  using assms
proof (induction s arbitrary: g1 g2)
  case Nil
  then show ?case by simp
next
  case (Cons c t)
  show ?case
  proof (cases "lastFraction t")
    case (Some r)
    obtain g1' g2' where r: "r = (g1', g2')" by (cases r)
    with Some Cons.prems have g: "g1 = c # g1'" "g2 = g2'" by simp_all
    from Cons.IH [of g1' g2'] Some r obtain d where
      "digits d" "t = g1' @ ''.'' @ d @ g2'" "g2' = [] \<or> \<not> isDigit (hd g2')"
      "lastFraction (d @ g2') = None"
      by blast
    with g show ?thesis by auto
  next
    case None
    with Cons.prems have c: "c = CHR ''.''" and t: "t \<noteq> []" "isDigit (hd t)"
      and g: "g1 = []" "g2 = dropWhile isDigit t"
      by (auto split: if_splits)
    let ?d = "takeWhile isDigit t"
    from t have "?d \<noteq> []" by (cases t) auto
    then have "digits ?d" by (simp add: digits_def list_all_takeWhile)
    moreover have "c # t = g1 @ ''.'' @ ?d @ g2" using c g by simp
    moreover have "g2 = [] \<or> \<not> isDigit (hd g2)"
      unfolding g using hd_dropWhile [of isDigit t] by blast
    moreover have "lastFraction (?d @ g2) = None" using g None by simp
    ultimately show ?thesis by blast
  qed
qed

lemma lastFraction_None:
  assumes "lastFraction s = None"
  shows "\<not> (\<exists>a c b. s = a @ ''.'' @ c # b \<and> isDigit c)"
  using assms
proof (induction s)
  case Nil
  then show ?case by simp
next
  case (Cons x t)
  from Cons.prems have n: "lastFraction t = None"
    and f: "\<not> (x = CHR ''.'' \<and> t \<noteq> [] \<and> isDigit (hd t))"
    by (auto split: option.splits if_splits)
  show ?case
  proof
    assume "\<exists>a c b. x # t = a @ ''.'' @ c # b \<and> isDigit c"
    then obtain a c b where e: "x # t = a @ ''.'' @ c # b" and c: "isDigit c" by blast
    show False
    proof (cases a)
      case Nil
      with e c f show False by simp
    next
      case (Cons y a')
      with e have "t = a' @ ''.'' @ c # b" by simp
      with c Cons.IH [OF n] show False by blast
    qed
  qed
qed

lemma lastFraction_None_iff:
  "lastFraction s = None \<longleftrightarrow> \<not> (\<exists>a c b. s = a @ ''.'' @ c # b \<and> isDigit c)"
proof
  assume "lastFraction s = None"
  then show "\<not> (\<exists>a c b. s = a @ ''.'' @ c # b \<and> isDigit c)" by (rule lastFraction_None)
next
  assume n: "\<not> (\<exists>a c b. s = a @ ''.'' @ c # b \<and> isDigit c)"
  show "lastFraction s = None"
  proof (cases "lastFraction s")
    case None
    then show ?thesis .
  next
    case (Some r)
    obtain g1 g2 where "r = (g1, g2)" by (cases r)
    with Some lastFraction_shape [of s g1 g2] obtain d where
      d: "digits d" and s: "s = g1 @ ''.'' @ d @ g2"
      by blast
    from d obtain c d' where "d = c # d'" "isDigit c"
      by (cases d) (auto simp add: digits_def)
    with s have "s = g1 @ ''.'' @ c # (d' @ g2) \<and> isDigit c" by simp
    with n show ?thesis by blast
  qed
qed

lemma layoutLoop_layouts:
  "layoutLoop Parse layouts s t =
     (case Parse ''2006-01-02T15:04:05-07:00'' s of
        Inr g \<Rightarrow> (None, g)
      | Inl e1 \<Rightarrow>
          (case Parse ''2006-01-02 15:04:05 -0700'' s of
             Inr g \<Rightarrow> (None, g)
           | Inl e2 \<Rightarrow>
               (case Parse ''2006-01-02T15:04:05Z'' s of
                  Inr g \<Rightarrow> (None, g)
                | Inl e3 \<Rightarrow> (Some (NoLayoutMatched s), t))))"
  by (simp add: layouts_def split: sum.splits)

lemma stripped_example:
  "stripped ''2019-07-01T10:00:00.123456789-07:00'' = ''2019-07-01T10:00:00-07:00''"
  by code_simp

lemma stripped_plain: "stripped ''2019-07-01T10:00:00-07:00'' = ''2019-07-01T10:00:00-07:00''"
  by code_simp

text \<open>
  Claim C5, amended. For every parse function in the place of \<open>time.Parse\<close>: the
  timestamp \<open>"2019-07-01T10:00:00.123456789-07:00"\<close> decodes to what
  \<open>"2019-07-01T10:00:00-07:00"\<close> decodes to, the fraction of the second being stripped
  before the layouts are tried; the empty string decodes to the zero time without error;
  the three layouts are tried in their order and the first that parses gives the result;
  and when none of the three parses, the codec fails with the error that names the
  string the layouts were tried on, which is the string without its fraction of a second
  (the raw string itself when the expression strips nothing).
\<close>

theorem timestamp_codec:
  "Time_UnmarshalJSON Parse t (JString ''2019-07-01T10:00:00.123456789-07:00'')
     = Time_UnmarshalJSON Parse t (JString ''2019-07-01T10:00:00-07:00'') \<and>
   Time_UnmarshalJSON Parse t (JString []) = (None, zeroTime) \<and>
   (\<forall>s g. s \<noteq> [] \<and> Parse ''2006-01-02T15:04:05-07:00'' (stripped s) = Inr g
      \<longrightarrow> Time_UnmarshalJSON Parse t (JString s) = (None, g)) \<and>
   (\<forall>s g. s \<noteq> [] \<and> isl (Parse ''2006-01-02T15:04:05-07:00'' (stripped s)) \<and>
      Parse ''2006-01-02 15:04:05 -0700'' (stripped s) = Inr g
      \<longrightarrow> Time_UnmarshalJSON Parse t (JString s) = (None, g)) \<and>
   (\<forall>s g. s \<noteq> [] \<and> isl (Parse ''2006-01-02T15:04:05-07:00'' (stripped s)) \<and>
      isl (Parse ''2006-01-02 15:04:05 -0700'' (stripped s)) \<and>
      Parse ''2006-01-02T15:04:05Z'' (stripped s) = Inr g
      \<longrightarrow> Time_UnmarshalJSON Parse t (JString s) = (None, g)) \<and>
   (\<forall>s. s \<noteq> [] \<and> (\<forall>l \<in> set layouts. isl (Parse l (stripped s)))
      \<longrightarrow> Time_UnmarshalJSON Parse t (JString s) = (Some (NoLayoutMatched (stripped s)), t)) \<and>
   (\<forall>s. stripFractionalSeconds_FindStringSubmatch s = [] \<longrightarrow> stripped s = s)"
proof (intro conjI allI impI)
  show "Time_UnmarshalJSON Parse t (JString ''2019-07-01T10:00:00.123456789-07:00'')
     = Time_UnmarshalJSON Parse t (JString ''2019-07-01T10:00:00-07:00'')"
    by (simp add: Time_UnmarshalJSON_def stripped_example stripped_plain)
next
  show "Time_UnmarshalJSON Parse t (JString []) = (None, zeroTime)"
    by (simp add: Time_UnmarshalJSON_def)
next
  fix s g
  assume "s \<noteq> [] \<and> Parse ''2006-01-02T15:04:05-07:00'' (stripped s) = Inr g"
  then show "Time_UnmarshalJSON Parse t (JString s) = (None, g)"
    by (simp add: Time_UnmarshalJSON_def layoutLoop_layouts)
next
  fix s g
  assume "s \<noteq> [] \<and> isl (Parse ''2006-01-02T15:04:05-07:00'' (stripped s)) \<and>
      Parse ''2006-01-02 15:04:05 -0700'' (stripped s) = Inr g"
  then show "Time_UnmarshalJSON Parse t (JString s) = (None, g)"
    by (auto simp add: Time_UnmarshalJSON_def layoutLoop_layouts split: sum.splits)
next
  fix s g
  assume "s \<noteq> [] \<and> isl (Parse ''2006-01-02T15:04:05-07:00'' (stripped s)) \<and>
      isl (Parse ''2006-01-02 15:04:05 -0700'' (stripped s)) \<and>
      Parse ''2006-01-02T15:04:05Z'' (stripped s) = Inr g"
  then show "Time_UnmarshalJSON Parse t (JString s) = (None, g)"
    by (auto simp add: Time_UnmarshalJSON_def layoutLoop_layouts split: sum.splits)
next
  fix s
  assume "s \<noteq> [] \<and> (\<forall>l \<in> set layouts. isl (Parse l (stripped s)))"
  then show "Time_UnmarshalJSON Parse t (JString s) = (Some (NoLayoutMatched (stripped s)), t)"
    by (auto simp add: Time_UnmarshalJSON_def layoutLoop_layouts layouts_def split: sum.splits)
next
  fix s
  assume "stripFractionalSeconds_FindStringSubmatch s = []"
  then show "stripped s = s"
    by (simp add: stripped_def)
qed

text \<open>
  Claim C5, as the specification states it, fails in its last part: the error of a
  timestamp that no layout matches does not name the raw string when the raw string has
  a fraction to strip. The variable \<open>s\<close> that the error message prints was assigned the
  stripped string before the loop.
\<close>

theorem timestamp_raw_string_counterexample:
  "Time_UnmarshalJSON sample_Parse zeroTime (JString ''x.5y'')
     = (Some (NoLayoutMatched ''xy''), zeroTime) \<and>
   Time_UnmarshalJSON sample_Parse zeroTime (JString ''x.5y'')
     \<noteq> (Some (NoLayoutMatched ''x.5y''), zeroTime)"
  by code_simp

theorem timestamp_codec_witness:
  "Time_UnmarshalJSON sample_Parse zeroTime (JString ''2019-07-01T10:00:00.123456789-07:00'')
     = (None, \<lparr>unixSec = 1562000400, nsec = 0, zoneOffset = - 25200\<rparr>) \<and>
   Time_UnmarshalJSON sample_Parse zeroTime (JString ''2019-07-01T10:00:00-07:00'')
     = (None, \<lparr>unixSec = 1562000400, nsec = 0, zoneOffset = - 25200\<rparr>) \<and>
   Time_UnmarshalJSON sample_Parse zeroTime (JString ''yesterday'')
     = (Some (NoLayoutMatched ''yesterday''), zeroTime)"
proof -
  note c = timestamp_codec [of sample_Parse zeroTime]
  have p: "''2019-07-01T10:00:00-07:00'' \<noteq> [] \<and>
      sample_Parse ''2006-01-02T15:04:05-07:00'' (stripped ''2019-07-01T10:00:00-07:00'')
        = Inr \<lparr>unixSec = 1562000400, nsec = 0, zoneOffset = - 25200\<rparr>"
    by (simp add: stripped_plain sample_Parse_def)
  with c have 1: "Time_UnmarshalJSON sample_Parse zeroTime (JString ''2019-07-01T10:00:00-07:00'')
     = (None, \<lparr>unixSec = 1562000400, nsec = 0, zoneOffset = - 25200\<rparr>)"
    by blast
  with c have 2:
    "Time_UnmarshalJSON sample_Parse zeroTime (JString ''2019-07-01T10:00:00.123456789-07:00'')
     = (None, \<lparr>unixSec = 1562000400, nsec = 0, zoneOffset = - 25200\<rparr>)"
    by simp
  have s: "stripped ''yesterday'' = ''yesterday''"
    by code_simp
  have "''yesterday'' \<noteq> [] \<and> (\<forall>l \<in> set layouts. isl (sample_Parse l (stripped ''yesterday'')))"
    by (simp add: s sample_Parse_def layouts_def)
  with c have "Time_UnmarshalJSON sample_Parse zeroTime (JString ''yesterday'')
     = (Some (NoLayoutMatched (stripped ''yesterday'')), zeroTime)"
    by blast
  with 1 2 s show ?thesis by simp
qed

section \<open>Package powerwall: the responses of the gateway\<close>

text \<open>
  The structs that the \<open>Monitor\<close> returns, with the fields that the projection of package
  \<open>model\<close> reads (the fields of a struct are named after it). A \<open>Monitor\<close> is modelled
  by the results of its methods in one poll cycle: the request, the transport and the
  decoding of the JSON body happen behind each method, and each returns the decoded
  struct or an error.
\<close>

record Operation =
  Operation_RealMode :: OperatingMode
  Operation_BackupReservePercent :: real

record Status =
  Status_StartTime :: go_time
  Status_UpTime :: int
  Status_Version :: string

record NetworkInfo =
  NetworkInfo_SignalStrength :: int

record Network =
  Network_Name :: string
  Network_Interface :: NetworkInterface
  Network_Enabled :: bool
  Network_Active :: bool
  Network_Primary :: bool
  Network_Info :: NetworkInfo

record SiteMaster =
  SiteMaster_Running :: bool
  SiteMaster_ConnectedToTesla :: bool
  SiteMaster_PowerSupplyMode :: bool

record powerwall_MeterDetails =
  powerwall_InstantPower :: real
  powerwall_InstantReactivePower :: real
  powerwall_InstantApparentPower :: real
  powerwall_EnergyExported :: float64
  powerwall_EnergyImported :: float64
  powerwall_InstantAverageVoltage :: real
  powerwall_InstantTotalCurrent :: real

record Aggregates =
  Aggregates_Site :: powerwall_MeterDetails
  Aggregates_Battery :: powerwall_MeterDetails
  Aggregates_Load :: powerwall_MeterDetails
  Aggregates_Solar :: powerwall_MeterDetails

record SOE =
  SOE_Percentage :: real

record GridStatus =
  GridStatus_Status :: SystemStatus
  GridStatus_Active :: bool

record Monitor =
  GetOperation :: "error + Operation"
  GetStatus :: "error + Status"
  GetNetworks :: "error + Network list"
  GetSiteMaster :: "error + SiteMaster"
  GetAggregates :: "error + Aggregates"
  GetSOE :: "error + SOE"
  GetGridStatus :: "error + GridStatus"

section \<open>Package model: the projection\<close>

record FixedInfo =
  NominalSystemEnergykWh :: real
  NominalSystemPowerkW :: real
  SiteName :: string
  NumPowerwalls :: int
  PowerwallSerialNumbers :: "string list"
  VIN :: string
  TotalSolarPowerRatingWatts :: int

record NetworkInterfaceDetails =
  Transport :: NetworkInterface
  Name :: string
  Active :: bool
  Enabled :: bool
  Primary :: bool
  SignalStrength :: int

datatype MeterType = Total | Load | Solar | Battery

fun MeterType_String :: "MeterType \<Rightarrow> string" where
  "MeterType_String Total = ''site''"
| "MeterType_String Load = ''load''"
| "MeterType_String Solar = ''solar''"
| "MeterType_String Battery = ''battery''"

record MeterDetails =
  InstantPower :: real
  InstantReactivePower :: real
  InstantApparentPower :: real
  CumulativeEnergyTo :: float64
  CumulativeEnergyFrom :: float64
  InstantAverageVoltage :: real
  InstantTotalCurrent :: real

record SoftwareVersion =
  Major :: int
  Minor :: int
  Release :: int

text \<open>
  The field \<open>GridConnected\<close> of the metrics is written \<open>GridConnected'\<close>: the name without
  the prime is the constant of \<open>SystemStatus\<close>.
\<close>

record TeslaEnergyGatewayMetrics =
  Fixed :: FixedInfo
  Mode :: OperatingMode
  BackupReservePercent :: real
  Uptime :: int
  Version :: SoftwareVersion
  NetworkInterfaces :: "NetworkInterface \<rightharpoonup> NetworkInterfaceDetails"
  SiteMasterRunning :: bool
  SiteMasterConnectedToTesla :: bool
  SiteMasterSupplyingPower :: bool
  Meters :: "MeterType \<rightharpoonup> MeterDetails"
  PowerwallChargePercent :: real
  GridConnected' :: bool
  GridActive :: bool

text \<open>
  \<^verbatim>\<open>var versionRegex = regexp.MustCompile(`^(\d+)\.(\d+)\.(\d+)`)\<close>

  The expression is anchored at the start of the string. A greedy \<open>\d+\<close> before a full
  stop is the whole run of digits, with the full stop behind it; the last \<open>\d+\<close> is the
  whole run of digits. \<open>FindStringSubmatch\<close> returns the match and the three groups, or
  \<open>nil\<close>.
\<close>

definition versionRegex_FindStringSubmatch :: "string \<Rightarrow> string list" where
  "versionRegex_FindStringSubmatch s =
     (case digitsThen (CHR ''.'') s of
        None \<Rightarrow> []
      | Some (a, r1) \<Rightarrow>
          (case digitsThen (CHR ''.'') r1 of
             None \<Rightarrow> []
           | Some (b, r2) \<Rightarrow>
               let c = takeWhile isDigit r2
               in if c = [] then [] else [a @ ''.'' @ b @ ''.'' @ c, a, b, c]))"

definition getOperations ::
  "Monitor \<Rightarrow> TeslaEnergyGatewayMetrics \<Rightarrow> error + TeslaEnergyGatewayMetrics" where
  "getOperations mon p =
     (case GetOperation mon of
        Inl err \<Rightarrow> Inl err
      | Inr operation \<Rightarrow>
          Inr (p\<lparr>Mode := Operation_RealMode operation,
                 BackupReservePercent := Operation_BackupReservePercent operation\<rparr>))"

definition getStatus ::
  "Monitor \<Rightarrow> TeslaEnergyGatewayMetrics \<Rightarrow> error + TeslaEnergyGatewayMetrics" where
  "getStatus mon p =
     (case GetStatus mon of
        Inl err \<Rightarrow> Inl err
      | Inr status \<Rightarrow>
          let p = p\<lparr>Uptime := Status_UpTime status\<rparr>;
              versionParts = versionRegex_FindStringSubmatch (Status_Version status)
          in if length versionParts \<noteq> 4 then Inl (VersionUnexpected (Status_Version status))
             else
               (case ParseInt (versionParts ! 1) of
                  Inl err \<Rightarrow> Inl err
                | Inr major \<Rightarrow>
                    (case ParseInt (versionParts ! 2) of
                       Inl err \<Rightarrow> Inl err
                     | Inr minor \<Rightarrow>
                         (case ParseInt (versionParts ! 3) of
                            Inl err \<Rightarrow> Inl err
                          | Inr release \<Rightarrow>
                              Inr (p\<lparr>Version :=
                                     \<lparr>Major = major, Minor = minor, Release = release\<rparr>\<rparr>)))))"

definition getNetworks ::
  "Monitor \<Rightarrow> TeslaEnergyGatewayMetrics \<Rightarrow> error + TeslaEnergyGatewayMetrics" where
  "getNetworks mon p =
     (case GetNetworks mon of
        Inl err \<Rightarrow> Inl err
      | Inr networks \<Rightarrow>
          Inr (p\<lparr>NetworkInterfaces :=
                 foldl (\<lambda>ifs nw. ifs(Network_Interface nw \<mapsto>
                          \<lparr>Transport = Network_Interface nw,
                           Name = Network_Name nw,
                           Active = Network_Active nw,
                           Enabled = Network_Enabled nw,
                           Primary = Network_Primary nw,
                           SignalStrength = NetworkInfo_SignalStrength (Network_Info nw)\<rparr>))
                   Map.empty networks\<rparr>))"

definition getSiteMaster ::
  "Monitor \<Rightarrow> TeslaEnergyGatewayMetrics \<Rightarrow> error + TeslaEnergyGatewayMetrics" where
  "getSiteMaster mon p =
     (case GetSiteMaster mon of
        Inl err \<Rightarrow> Inl err
      | Inr siteMaster \<Rightarrow>
          Inr (p\<lparr>SiteMasterRunning := SiteMaster_Running siteMaster,
                 SiteMasterConnectedToTesla := SiteMaster_ConnectedToTesla siteMaster,
                 SiteMasterSupplyingPower := SiteMaster_PowerSupplyMode siteMaster\<rparr>))"

definition getdetails :: "powerwall_MeterDetails \<Rightarrow> MeterDetails" where
  "getdetails d =
     \<lparr>InstantPower = powerwall_InstantPower d,
      InstantReactivePower = powerwall_InstantReactivePower d,
      InstantApparentPower = powerwall_InstantApparentPower d,
      CumulativeEnergyTo = powerwall_EnergyImported d,
      CumulativeEnergyFrom = powerwall_EnergyExported d,
      InstantAverageVoltage = powerwall_InstantAverageVoltage d,
      InstantTotalCurrent = powerwall_InstantTotalCurrent d\<rparr>"

definition getAggregates ::
  "Monitor \<Rightarrow> TeslaEnergyGatewayMetrics \<Rightarrow> error + TeslaEnergyGatewayMetrics" where
  "getAggregates mon p =
     (case GetAggregates mon of
        Inl err \<Rightarrow> Inl err
      | Inr agg \<Rightarrow>
          Inr (p\<lparr>Meters :=
                 [Total \<mapsto> getdetails (Aggregates_Site agg),
                  Load \<mapsto> getdetails (Aggregates_Load agg),
                  Solar \<mapsto> getdetails (Aggregates_Solar agg),
                  Battery \<mapsto> getdetails (Aggregates_Battery agg)]\<rparr>))"

definition getSOE ::
  "Monitor \<Rightarrow> TeslaEnergyGatewayMetrics \<Rightarrow> error + TeslaEnergyGatewayMetrics" where
  "getSOE mon p =
     (case GetSOE mon of
        Inl err \<Rightarrow> Inl err
      | Inr soe \<Rightarrow>
          let p = p\<lparr>PowerwallChargePercent := SOE_Percentage soe\<rparr>
          in case GetGridStatus mon of
               Inl err \<Rightarrow> Inl err
             | Inr gridstatus \<Rightarrow>
                 Inr (p\<lparr>GridActive := GridStatus_Active gridstatus,
                        GridConnected' := (GridStatus_Status gridstatus = GridConnected)\<rparr>))"

text \<open>The loop \<open>for _, op := range ops\<close> of \<open>getDynamicInfo\<close>: the first error ends it.\<close>

fun opsLoop ::
  "(TeslaEnergyGatewayMetrics \<Rightarrow> error + TeslaEnergyGatewayMetrics) list
     \<Rightarrow> TeslaEnergyGatewayMetrics \<Rightarrow> error + TeslaEnergyGatewayMetrics" where
  "opsLoop [] p = Inr p"
| "opsLoop (op # ops) p = (case op p of Inl err \<Rightarrow> Inl err | Inr p' \<Rightarrow> opsLoop ops p')"

definition getDynamicInfo ::
  "FixedInfo \<Rightarrow> Monitor \<Rightarrow> TeslaEnergyGatewayMetrics \<Rightarrow> error + TeslaEnergyGatewayMetrics" where
  "getDynamicInfo fixed mon p =
     opsLoop
       [getOperations mon, getStatus mon, getNetworks mon, getSiteMaster mon,
        getAggregates mon, getSOE mon]
       (p\<lparr>Fixed := fixed\<rparr>)"

text \<open>The zero value \<open>&TeslaEnergyGatewayMetrics{}\<close> that \<open>Poll\<close> starts from.\<close>

definition zeroMetrics :: TeslaEnergyGatewayMetrics where
  "zeroMetrics =
     \<lparr>Fixed = \<lparr>NominalSystemEnergykWh = 0, NominalSystemPowerkW = 0, SiteName = [],
               NumPowerwalls = 0, PowerwallSerialNumbers = [], VIN = [],
               TotalSolarPowerRatingWatts = 0\<rparr>,
      Mode = Backup, BackupReservePercent = 0, Uptime = 0,
      Version = \<lparr>Major = 0, Minor = 0, Release = 0\<rparr>,
      NetworkInterfaces = Map.empty,
      SiteMasterRunning = False, SiteMasterConnectedToTesla = False,
      SiteMasterSupplyingPower = False,
      Meters = Map.empty, PowerwallChargePercent = 0, GridConnected' = False,
      GridActive = False\<rparr>"

text \<open>\<open>Poll\<close> returns the metrics, or \<open>nil\<close> and the error.\<close>

definition Poll :: "Monitor \<Rightarrow> FixedInfo \<Rightarrow> error + TeslaEnergyGatewayMetrics" where
  "Poll mon fixed = getDynamicInfo fixed mon zeroMetrics"

section \<open>Package view: the Prometheus counters\<close>

text \<open>
  The instruments of the Prometheus client library are modelled by what the program
  hands to them: a gauge by the value it was set to, a vector of gauges by a map from
  the values of its labels to the values of its children, and the vector of counters by
  a map from the values of its labels to the arguments of the calls of \<open>Add\<close> on that
  child, in their order (a child exists once \<open>With\<close> was called for its labels).
  \<open>Counter.Add\<close> panics for an argument below zero; \<open>Update\<close> calls it only in the branch
  where the argument is not below zero, so the model has no such panic. The warnings
  written with \<open>glog.Warningf\<close> are returned with the result: the meter, the direction
  and the delta of each.
\<close>

record PrometheusCounters =
  powerwallChargePercent :: real
  nominalSystemEnergykWh :: real
  nominalSystemPowerkW :: real
  numPowerwalls :: real
  totalSolarRatingWatts :: real
  backupMode :: real
  selfConsumptionMode :: real
  backupReservePercent :: real
  uptimeSeconds :: real
  majorVersion :: real
  minorVersion :: real
  releaseVersion :: real
  flattenedVersion :: real
  networkActive :: "string \<rightharpoonup> real"
  networkEnabled :: "string \<rightharpoonup> real"
  networkPrimary :: "string \<rightharpoonup> real"
  networkSignalStrength :: "string \<rightharpoonup> real"
  siteMasterRunning :: real
  siteMasterConnectedToTesla :: real
  siteMasterSupplyingPower :: real
  instantPower :: "string \<times> string \<rightharpoonup> real"
  priorCumulative :: "MeterType \<rightharpoonup> (string \<rightharpoonup> float64)"
  cumulativePower :: "string \<times> string \<rightharpoonup> float64 list"
  instantAverageVoltage :: "string \<rightharpoonup> real"
  instantTotalCurrent :: "string \<rightharpoonup> real"
  gridConnected :: real
  gridActive :: real

datatype view_log = Warningf_decreased MeterType string float64

definition kFrom :: string where "kFrom = ''from''"

definition kTo :: string where "kTo = ''to''"

definition kTruePower :: string where "kTruePower = ''truePower''"

definition kReactivePower :: string where "kReactivePower = ''reactivePower''"

definition kApparentPower :: string where "kApparentPower = ''apparentPower''"

text \<open>
  \<open>New\<close>, without the registration of the collectors (which can only make \<open>New\<close> fail):
  the gauges of the fixed information are set, and \<open>priorCumulative\<close> gets an empty inner
  map for each of the four meters.
\<close>

definition New :: "FixedInfo \<Rightarrow> PrometheusCounters" where
  "New fixed =
     \<lparr>powerwallChargePercent = 0,
      nominalSystemEnergykWh = NominalSystemEnergykWh fixed,
      nominalSystemPowerkW = NominalSystemPowerkW fixed,
      numPowerwalls = real_of_int (NumPowerwalls fixed),
      totalSolarRatingWatts = real_of_int (TotalSolarPowerRatingWatts fixed),
      backupMode = 0, selfConsumptionMode = 0, backupReservePercent = 0, uptimeSeconds = 0,
      majorVersion = 0, minorVersion = 0, releaseVersion = 0, flattenedVersion = 0,
      networkActive = Map.empty, networkEnabled = Map.empty, networkPrimary = Map.empty,
      networkSignalStrength = Map.empty,
      siteMasterRunning = 0, siteMasterConnectedToTesla = 0, siteMasterSupplyingPower = 0,
      instantPower = Map.empty,
      priorCumulative =
        [Total \<mapsto> Map.empty, Solar \<mapsto> Map.empty, Battery \<mapsto> Map.empty, Load \<mapsto> Map.empty],
      cumulativePower = Map.empty,
      instantAverageVoltage = Map.empty, instantTotalCurrent = Map.empty,
      gridConnected = 0, gridActive = 0\<rparr>"

text \<open>
  The decimal digits of a number that is not negative, and \<open>fmt.Sprintf("%02d", n)\<close>
  for an \<open>int64\<close>: the sign counts for the width of two.
\<close>

function decimal :: "int \<Rightarrow> string" where
  "decimal n =
     (if n < 10 then [''0123456789'' ! nat n]
      else decimal (n div 10) @ [''0123456789'' ! nat (n mod 10)])"
  by pat_completeness auto
termination
  by (relation "measure nat") auto

declare decimal.simps [simp del]

definition Sprintf_02d :: "int \<Rightarrow> string" where
  "Sprintf_02d n =
     (if n < 0 then CHR ''-'' # decimal (- n)
      else let d = decimal n in if length d < 2 then CHR ''0'' # d else d)"

definition boolToFloat :: "bool \<Rightarrow> real" where
  "boolToFloat b = (if b then 1 else 0)"

text \<open>
  A \<open>range\<close> over a Go map visits every key once, in an order that the run time chooses.
  The order is a parameter of the model: \<open>rangeOver order m\<close> are the entries of \<open>m\<close> as
  the loop visits them when \<open>order\<close> lists the keys.
\<close>

definition rangeOver :: "'k list \<Rightarrow> ('k \<rightharpoonup> 'v) \<Rightarrow> ('k \<times> 'v) list" where
  "rangeOver order m = List.map_filter (\<lambda>k. map_option (Pair k) (m k)) order"

text \<open>The statements of \<open>Update\<close> before the flattened version is parsed.\<close>

definition setScalars :: "PrometheusCounters \<Rightarrow> TeslaEnergyGatewayMetrics \<Rightarrow> PrometheusCounters" where
  "setScalars p m =
     p\<lparr>powerwallChargePercent := PowerwallChargePercent m,
       backupMode := (if Mode m = Backup then 1 else 0),
       selfConsumptionMode := (if Mode m = SelfConsumption then 1 else 0),
       backupReservePercent := BackupReservePercent m,
       uptimeSeconds := real_of_int (Uptime m) / real_of_int Second,
       majorVersion := real_of_int (Major (Version m)),
       minorVersion := real_of_int (Minor (Version m)),
       releaseVersion := real_of_int (Release (Version m))\<rparr>"

text \<open>The body of the loop over \<open>m.NetworkInterfaces\<close>.\<close>

definition updateNetwork :: "NetworkInterfaceDetails \<Rightarrow> PrometheusCounters \<Rightarrow> PrometheusCounters" where
  "updateNetwork net p =
     (let label = NetworkInterface_String (Transport net)
      in p\<lparr>networkEnabled := (networkEnabled p)(label \<mapsto> boolToFloat (Enabled net)),
           networkActive := (networkActive p)(label \<mapsto> boolToFloat (Active net)),
           networkPrimary := (networkPrimary p)(label \<mapsto> boolToFloat (Primary net)),
           networkSignalStrength :=
             (networkSignalStrength p)(label \<mapsto> real_of_int (SignalStrength net))\<rparr>)"

definition setSiteMaster :: "PrometheusCounters \<Rightarrow> TeslaEnergyGatewayMetrics \<Rightarrow> PrometheusCounters" where
  "setSiteMaster p m =
     p\<lparr>siteMasterRunning := boolToFloat (SiteMasterRunning m),
       siteMasterConnectedToTesla := boolToFloat (SiteMasterConnectedToTesla m),
       siteMasterSupplyingPower := boolToFloat (SiteMasterSupplyingPower m)\<rparr>"

text \<open>
  \<open>With(labels).Add(delta)\<close> on the vector of counters: the child of the labels gets one
  more increment.
\<close>

definition increments :: "('k \<rightharpoonup> float64 list) \<Rightarrow> 'k \<Rightarrow> float64 list" where
  "increments c k = (case c k of None \<Rightarrow> [] | Some vs \<Rightarrow> vs)"

definition counterAdd ::
  "('k \<rightharpoonup> float64 list) \<Rightarrow> 'k \<Rightarrow> float64 \<Rightarrow> ('k \<rightharpoonup> float64 list)" where
  "counterAdd c k v = c(k \<mapsto> increments c k @ [v])"

text \<open>\<open>p.priorCumulative[mt][dir]\<close> as a value: zero when either key is missing.\<close>

definition priorGet ::
  "(MeterType \<rightharpoonup> (string \<rightharpoonup> float64)) \<Rightarrow> MeterType \<Rightarrow> string \<Rightarrow> float64" where
  "priorGet pc mt dir =
     (case pc mt of
        None \<Rightarrow> Finite 0
      | Some inner \<Rightarrow> (case inner dir of None \<Rightarrow> Finite 0 | Some v \<Rightarrow> v))"

text \<open>
  \<open>const epsilon = 0.00001\<close> is an untyped constant; in \<open>delta < -epsilon\<close> it is converted
  to the \<open>float64\<close> nearest to it, which is \<open>5902958103587057 / 2^69\<close>
  (\<open>0x1.4f8b588e368f1p-17\<close>), a little above 0.00001.
\<close>

definition epsilon :: real where
  "epsilon = 5902958103587057 / 2 ^ 69"

text \<open>
  The branch on one delta: a warning when it is below \<open>-epsilon\<close>, nothing when it is
  below zero within \<open>epsilon\<close>, and the addition to the counter otherwise.
\<close>

definition publishDelta ::
  "MeterType \<Rightarrow> string \<Rightarrow> float64 \<Rightarrow> PrometheusCounters
     \<Rightarrow> PrometheusCounters \<times> view_log list" where
  "publishDelta mt dir delta p =
     (if flt delta (Finite 0) then
        (if flt delta (Finite (- epsilon)) then (p, [Warningf_decreased mt dir delta])
         else (p, []))
      else
        (p\<lparr>cumulativePower :=
              counterAdd (cumulativePower p) (MeterType_String mt, dir) delta\<rparr>, []))"

text \<open>
  The body of the loop over \<open>m.Meters\<close>. The assignment \<open>p.priorCumulative[mt][kTo] = ...\<close>
  panics when \<open>p.priorCumulative\<close> has no inner map for \<open>mt\<close>; the statements before it
  have run by then.
\<close>

definition updateMeter ::
  "(float64 \<Rightarrow> float64 \<Rightarrow> float64) \<Rightarrow> MeterType \<Rightarrow> MeterDetails \<Rightarrow> PrometheusCounters
     \<Rightarrow> error option \<times> PrometheusCounters \<times> view_log list" where
  "updateMeter fsub mt meter p =
     (let name = MeterType_String mt;
          p = p\<lparr>instantPower :=
                  (instantPower p)
                    ((name, kTruePower) \<mapsto> InstantPower meter,
                     (name, kReactivePower) \<mapsto> InstantReactivePower meter,
                     (name, kApparentPower) \<mapsto> InstantApparentPower meter),
                instantAverageVoltage :=
                  (instantAverageVoltage p)(name \<mapsto> InstantAverageVoltage meter),
                instantTotalCurrent :=
                  (instantTotalCurrent p)(name \<mapsto> InstantTotalCurrent meter)\<rparr>;
          prior = priorGet (priorCumulative p) mt kTo;
          delta = fsub (CumulativeEnergyTo meter) prior
      in case priorCumulative p mt of
           None \<Rightarrow> (Some NilMapPanic, p, [])
         | Some inner \<Rightarrow>
             let p = p\<lparr>priorCumulative :=
                        (priorCumulative p)(mt \<mapsto> inner(kTo \<mapsto> CumulativeEnergyTo meter))\<rparr>;
                 (p, lg1) = publishDelta mt kTo delta p;
                 prior = priorGet (priorCumulative p) mt kFrom;
                 delta = fsub (CumulativeEnergyFrom meter) prior;
                 (p, lg2) = publishDelta mt kFrom delta p;
                 p = p\<lparr>priorCumulative :=
                        (priorCumulative p)
                          (mt \<mapsto> inner(kTo \<mapsto> CumulativeEnergyTo meter,
                                       kFrom \<mapsto> CumulativeEnergyFrom meter))\<rparr>
             in (None, p, lg1 @ lg2))"

fun meterLoop ::
  "(float64 \<Rightarrow> float64 \<Rightarrow> float64) \<Rightarrow> (MeterType \<times> MeterDetails) list \<Rightarrow> PrometheusCounters
     \<Rightarrow> error option \<times> PrometheusCounters \<times> view_log list" where
  "meterLoop fsub [] p = (None, p, [])"
| "meterLoop fsub ((mt, meter) # rest) p =
     (case updateMeter fsub mt meter p of
        (Some err, p', lg) \<Rightarrow> (Some err, p', lg)
      | (None, p', lg) \<Rightarrow>
          (case meterLoop fsub rest p' of (e, p'', lg') \<Rightarrow> (e, p'', lg @ lg')))"

definition setGrid :: "PrometheusCounters \<Rightarrow> TeslaEnergyGatewayMetrics \<Rightarrow> PrometheusCounters" where
  "setGrid p m =
     p\<lparr>gridConnected := boolToFloat (GridConnected' m),
       gridActive := boolToFloat (GridActive m)\<rparr>"

text \<open>
  \<open>Update\<close>: \<open>fsub\<close> is the subtraction of \<open>float64\<close>, and \<open>netOrder\<close> and \<open>meterOrder\<close> are
  the orders in which the two loops visit the keys of their maps.
\<close>

definition Update ::
  "(float64 \<Rightarrow> float64 \<Rightarrow> float64) \<Rightarrow> NetworkInterface list \<Rightarrow> MeterType list
     \<Rightarrow> PrometheusCounters \<Rightarrow> TeslaEnergyGatewayMetrics
     \<Rightarrow> error option \<times> PrometheusCounters \<times> view_log list" where
  "Update fsub netOrder meterOrder p m =
     (let p = setScalars p m;
          fs = Sprintf_02d (Major (Version m)) @ Sprintf_02d (Minor (Version m))
                 @ Sprintf_02d (Release (Version m))
      in case ParseInt fs of
           Inl err \<Rightarrow> (Some err, p, [])
         | Inr flat \<Rightarrow>
             let p = p\<lparr>flattenedVersion := real_of_int flat\<rparr>;
                 p = fold (\<lambda>(k, net). updateNetwork net)
                       (rangeOver netOrder (NetworkInterfaces m)) p;
                 p = setSiteMaster p m
             in case meterLoop fsub (rangeOver meterOrder (Meters m)) p of
                  (Some err, p, lg) \<Rightarrow> (Some err, p, lg)
                | (None, p, lg) \<Rightarrow> (None, setGrid p m, lg))"

section \<open>Package controller: one poll cycle\<close>

text \<open>
  \<open>PollEngine.poll\<close>, with the monitor, the fixed information and the view of the engine:
  the view is handed to \<open>Update\<close> only when \<open>model.Poll\<close> returned the metrics.
\<close>

definition poll ::
  "(float64 \<Rightarrow> float64 \<Rightarrow> float64) \<Rightarrow> NetworkInterface list \<Rightarrow> MeterType list \<Rightarrow> Monitor
     \<Rightarrow> FixedInfo \<Rightarrow> PrometheusCounters
     \<Rightarrow> error option \<times> PrometheusCounters \<times> view_log list" where
  "poll fsub netOrder meterOrder mon fixed view =
     (case Poll mon fixed of
        Inl err \<Rightarrow> (Some err, view, [])
      | Inr stats \<Rightarrow> Update fsub netOrder meterOrder view stats)"

section \<open>Sample values for the evaluation at concrete inputs\<close>

text \<open>
  The subtraction of IEEE 754 returns the exact difference whenever that is a \<open>float64\<close>.
  \<open>sample_fsub\<close> is the exact difference of finite values (and the subtraction of IEEE
  754 on the others); the evaluations below subtract only values whose exact difference
  is a \<open>float64\<close>.
\<close>

fun sample_fsub :: "float64 \<Rightarrow> float64 \<Rightarrow> float64" where
  "sample_fsub (Finite a) (Finite b) = Finite (a - b)"
| "sample_fsub NaN y = NaN"
| "sample_fsub x NaN = NaN"
| "sample_fsub PosInf PosInf = NaN"
| "sample_fsub NegInf NegInf = NaN"
| "sample_fsub PosInf y = PosInf"
| "sample_fsub NegInf y = NegInf"
| "sample_fsub (Finite a) PosInf = NegInf"
| "sample_fsub (Finite a) NegInf = PosInf"

definition sample_meter :: "float64 \<Rightarrow> float64 \<Rightarrow> MeterDetails" where
  "sample_meter to from =
     \<lparr>InstantPower = 0, InstantReactivePower = 0, InstantApparentPower = 0,
      CumulativeEnergyTo = to, CumulativeEnergyFrom = from,
      InstantAverageVoltage = 0, InstantTotalCurrent = 0\<rparr>"

definition sample_metrics ::
  "SoftwareVersion \<Rightarrow> (MeterType \<rightharpoonup> MeterDetails) \<Rightarrow> TeslaEnergyGatewayMetrics" where
  "sample_metrics v ms = zeroMetrics\<lparr>Version := v, Meters := ms\<rparr>"

definition sample_Monitor :: "string \<Rightarrow> error + Aggregates \<Rightarrow> Monitor" where
  "sample_Monitor version aggregates =
     \<lparr>GetOperation =
        Inr \<lparr>Operation_RealMode = SelfConsumption, Operation_BackupReservePercent = 20\<rparr>,
      GetStatus =
        Inr \<lparr>Status_StartTime = zeroTime, Status_UpTime = 518072539257895,
             Status_Version = version\<rparr>,
      GetNetworks = Inr [],
      GetSiteMaster =
        Inr \<lparr>SiteMaster_Running = True, SiteMaster_ConnectedToTesla = True,
             SiteMaster_PowerSupplyMode = False\<rparr>,
      GetAggregates = aggregates,
      GetSOE = Inr \<lparr>SOE_Percentage = 50\<rparr>,
      GetGridStatus =
        Inr \<lparr>GridStatus_Status = GridConnected, GridStatus_Active = False\<rparr>\<rparr>"

section \<open>Properties of one poll cycle\<close>

subsection \<open>The error path of \<open>Update\<close>\<close>

lemma setScalars_frame [simp]:
  "priorCumulative (setScalars p m) = priorCumulative p"
  "cumulativePower (setScalars p m) = cumulativePower p"
  "flattenedVersion (setScalars p m) = flattenedVersion p"
  by (simp_all add: setScalars_def)

lemma setScalars_gauges:
  "powerwallChargePercent (setScalars p m) = PowerwallChargePercent m"
  "backupMode (setScalars p m) = (if Mode m = Backup then 1 else 0)"
  "selfConsumptionMode (setScalars p m) = (if Mode m = SelfConsumption then 1 else 0)"
  "backupReservePercent (setScalars p m) = BackupReservePercent m"
  "uptimeSeconds (setScalars p m) = real_of_int (Uptime m) / real_of_int Second"
  "majorVersion (setScalars p m) = real_of_int (Major (Version m))"
  "minorVersion (setScalars p m) = real_of_int (Minor (Version m))"
  "releaseVersion (setScalars p m) = real_of_int (Release (Version m))"
  by (simp_all add: setScalars_def)

text \<open>
  Claim C10. \<open>Update\<close> is not atomic: when the flattened version does not parse as an
  integer, \<open>Update\<close> returns that error with a state in which the gauges of the charge
  percentage, of the two modes, of the backup reserve, of the uptime and of the major,
  minor and release version have their new values, while the flattened version, the
  stored cumulative values of the meters and the cumulative counters are what they were.
\<close>

theorem Update_flattened_parse_error:
  assumes "ParseInt (Sprintf_02d (Major (Version m)) @ Sprintf_02d (Minor (Version m))
             @ Sprintf_02d (Release (Version m))) = Inl err"
  shows "Update fsub netOrder meterOrder p m = (Some err, setScalars p m, []) \<and>
    powerwallChargePercent (setScalars p m) = PowerwallChargePercent m \<and>
    backupMode (setScalars p m) = (if Mode m = Backup then 1 else 0) \<and>
    selfConsumptionMode (setScalars p m) = (if Mode m = SelfConsumption then 1 else 0) \<and>
    backupReservePercent (setScalars p m) = BackupReservePercent m \<and>
    uptimeSeconds (setScalars p m) = real_of_int (Uptime m) / real_of_int Second \<and>
    majorVersion (setScalars p m) = real_of_int (Major (Version m)) \<and>
    minorVersion (setScalars p m) = real_of_int (Minor (Version m)) \<and>
    releaseVersion (setScalars p m) = real_of_int (Release (Version m)) \<and>
    flattenedVersion (setScalars p m) = flattenedVersion p \<and>
    priorCumulative (setScalars p m) = priorCumulative p \<and>
    cumulativePower (setScalars p m) = cumulativePower p"
proof -
  from assms have "Update fsub netOrder meterOrder p m = (Some err, setScalars p m, [])"
    by (simp add: Update_def)
  then show ?thesis
    by (simp add: setScalars_gauges)
qed

lemma sample_flat_error:
  "ParseInt (Sprintf_02d 9999999999 @ Sprintf_02d 9999999999 @ Sprintf_02d 0)
     = Inl (NumError ''9999999999999999999900'' ErrRange)"
  by code_simp

theorem Update_flattened_parse_error_witness:
  "Update sample_fsub [] [Total] (New (Fixed zeroMetrics))
     (sample_metrics \<lparr>Major = 9999999999, Minor = 9999999999, Release = 0\<rparr>
        [Total \<mapsto> sample_meter (Finite 100) (Finite 100)])
   = (Some (NumError ''9999999999999999999900'' ErrRange),
      (New (Fixed zeroMetrics))\<lparr>backupMode := 1, majorVersion := 9999999999,
         minorVersion := 9999999999\<rparr>, [])"
proof -
  let ?m = "sample_metrics \<lparr>Major = 9999999999, Minor = 9999999999, Release = 0\<rparr>
        [Total \<mapsto> sample_meter (Finite 100) (Finite 100)]"
  have v: "Version ?m = \<lparr>Major = 9999999999, Minor = 9999999999, Release = 0\<rparr>"
    by (simp add: sample_metrics_def)
  have "ParseInt (Sprintf_02d (Major (Version ?m)) @ Sprintf_02d (Minor (Version ?m))
             @ Sprintf_02d (Release (Version ?m)))
        = Inl (NumError ''9999999999999999999900'' ErrRange)"
    unfolding v by (simp add: sample_flat_error)
  from Update_flattened_parse_error [OF this, of sample_fsub "[]" "[Total]"
         "New (Fixed zeroMetrics)"]
  have "Update sample_fsub [] [Total] (New (Fixed zeroMetrics)) ?m
        = (Some (NumError ''9999999999999999999900'' ErrRange),
           setScalars (New (Fixed zeroMetrics)) ?m, [])"
    by blast
  moreover have "setScalars (New (Fixed zeroMetrics)) ?m
      = (New (Fixed zeroMetrics))\<lparr>backupMode := 1, majorVersion := 9999999999,
         minorVersion := 9999999999\<rparr>"
    by (simp add: setScalars_def sample_metrics_def zeroMetrics_def New_def)
  ultimately show ?thesis by simp
qed

subsection \<open>A poll cycle that fails\<close>

lemma Poll_Inr_endpoints:
  assumes "Poll mon fixed = Inr stats"
  shows "\<not> isl (GetOperation mon) \<and> \<not> isl (GetStatus mon) \<and> \<not> isl (GetNetworks mon) \<and>
         \<not> isl (GetSiteMaster mon) \<and> \<not> isl (GetAggregates mon) \<and> \<not> isl (GetSOE mon) \<and>
         \<not> isl (GetGridStatus mon)"
  using assms
  by (auto simp add: Poll_def getDynamicInfo_def getOperations_def getStatus_def
      getNetworks_def getSiteMaster_def getAggregates_def getSOE_def Let_def
      split: sum.splits if_splits)

lemma poll_Inl: "Poll mon fixed = Inl err \<Longrightarrow> poll fsub netOrder meterOrder mon fixed view = (Some err, view, [])"
  by (simp add: poll_def)

text \<open>
  Claim C2. When one of the endpoints of a poll cycle fails (the request, or the
  decoding of its answer), \<open>poll\<close> returns an error and the view it was given, unchanged:
  the stored cumulative values are what they were before the cycle. And whenever a
  cycle changes the stored cumulative values, \<open>model.Poll\<close> has returned the metrics: all
  seven endpoints were decoded and the projection succeeded.
\<close>

theorem poll_failure_keeps_state:
  "(isl (GetOperation mon) \<or> isl (GetStatus mon) \<or> isl (GetNetworks mon) \<or>
    isl (GetSiteMaster mon) \<or> isl (GetAggregates mon) \<or> isl (GetSOE mon) \<or>
    isl (GetGridStatus mon)
    \<longrightarrow> (\<exists>err. poll fsub netOrder meterOrder mon fixed view = (Some err, view, []))) \<and>
   (priorCumulative (fst (snd (poll fsub netOrder meterOrder mon fixed view))) \<noteq> priorCumulative view
    \<longrightarrow> (\<exists>stats. Poll mon fixed = Inr stats) \<and>
        \<not> isl (GetOperation mon) \<and> \<not> isl (GetStatus mon) \<and> \<not> isl (GetNetworks mon) \<and>
        \<not> isl (GetSiteMaster mon) \<and> \<not> isl (GetAggregates mon) \<and> \<not> isl (GetSOE mon) \<and>
        \<not> isl (GetGridStatus mon))"
proof -
  have a: "\<exists>err. poll fsub netOrder meterOrder mon fixed view = (Some err, view, [])"
    if f: "isl (GetOperation mon) \<or> isl (GetStatus mon) \<or> isl (GetNetworks mon) \<or>
      isl (GetSiteMaster mon) \<or> isl (GetAggregates mon) \<or> isl (GetSOE mon) \<or>
      isl (GetGridStatus mon)"
  proof (cases "Poll mon fixed")
    case (Inl err)
    then show ?thesis by (auto simp add: poll_Inl)
  next
    case (Inr stats)
    from Poll_Inr_endpoints [OF this] f show ?thesis by blast
  qed
  have b: "\<exists>stats. Poll mon fixed = Inr stats"
    if c: "priorCumulative (fst (snd (poll fsub netOrder meterOrder mon fixed view)))
             \<noteq> priorCumulative view"
  proof (cases "Poll mon fixed")
    case (Inl err)
    with c show ?thesis by (simp add: poll_Inl)
  next
    case (Inr stats)
    then show ?thesis by blast
  qed
  from a b Poll_Inr_endpoints [of mon fixed] show ?thesis
    by blast
qed

theorem poll_failure_keeps_state_witness:
  "fst (poll sample_fsub [] [Total]
          (sample_Monitor ''20.49.3'' (Inl (LibraryError ''json Decode /meters/aggregates'')))
          (Fixed zeroMetrics) (New (Fixed zeroMetrics))) \<noteq> None \<and>
   snd (poll sample_fsub [] [Total]
          (sample_Monitor ''20.49.3'' (Inl (LibraryError ''json Decode /meters/aggregates'')))
          (Fixed zeroMetrics) (New (Fixed zeroMetrics)))
     = (New (Fixed zeroMetrics), [])"
proof -
  let ?mon = "sample_Monitor ''20.49.3'' (Inl (LibraryError ''json Decode /meters/aggregates''))"
  have "isl (GetAggregates ?mon)"
    by (simp add: sample_Monitor_def)
  with poll_failure_keeps_state
         [of ?mon sample_fsub "[]" "[Total]" "Fixed zeroMetrics" "New (Fixed zeroMetrics)"]
  have "\<exists>err. poll sample_fsub [] [Total] ?mon (Fixed zeroMetrics) (New (Fixed zeroMetrics))
                = (Some err, New (Fixed zeroMetrics), [])"
    by blast
  then show ?thesis by auto
qed

subsection \<open>The version of the gateway\<close>

text \<open>
  The words of the specification: a version string has three leading numeric components,
  separated by full stops, when it starts with a run of digits, a full stop, a run of
  digits, a full stop and a digit-run again (none of them empty).
\<close>

definition threeNumericComponents :: "string \<Rightarrow> bool" where
  "threeNumericComponents s =
     (\<exists>a b c rest. s = a @ ''.'' @ b @ ''.'' @ c @ rest \<and> a \<noteq> [] \<and> b \<noteq> [] \<and> c \<noteq> [] \<and>
        list_all isDigit a \<and> list_all isDigit b \<and> list_all isDigit c)"

lemma versionRegex_length:
  "versionRegex_FindStringSubmatch s = [] \<or> length (versionRegex_FindStringSubmatch s) = 4"
  by (simp add: versionRegex_FindStringSubmatch_def Let_def split: option.splits)

lemma versionRegex_components:
  assumes "versionRegex_FindStringSubmatch s \<noteq> []"
  shows "threeNumericComponents s"
proof -
  from assms obtain a r1 where 1: "digitsThen (CHR ''.'') s = Some (a, r1)"
    by (cases "digitsThen (CHR ''.'') s") (auto simp add: versionRegex_FindStringSubmatch_def)
  with assms obtain b r2 where 2: "digitsThen (CHR ''.'') r1 = Some (b, r2)"
    by (cases "digitsThen (CHR ''.'') r1") (auto simp add: versionRegex_FindStringSubmatch_def)
  define c where "c = takeWhile isDigit r2"
  from assms 1 2 have 3: "c \<noteq> []"
    by (auto simp add: versionRegex_FindStringSubmatch_def Let_def c_def split: if_splits)
  have r2: "r2 = c @ dropWhile isDigit r2" by (simp add: c_def)
  have dc: "list_all isDigit c" unfolding c_def by (rule list_all_takeWhile)
  from digitsThen_SomeD [OF 1] have s: "s = a @ CHR ''.'' # r1" and a: "a \<noteq> []" "list_all isDigit a"
    by simp_all
  from digitsThen_SomeD [OF 2] have r1: "r1 = b @ CHR ''.'' # r2" and b: "b \<noteq> []" "list_all isDigit b"
    by simp_all
  have "s = a @ ''.'' @ b @ ''.'' @ c @ dropWhile isDigit r2"
    using s r1 r2 by simp
  with a b 3 dc show ?thesis
    unfolding threeNumericComponents_def by blast
qed

lemma components_versionRegex:
  assumes "threeNumericComponents s"
  shows "versionRegex_FindStringSubmatch s \<noteq> []"
proof -
  from assms obtain a b c rest where s: "s = a @ ''.'' @ b @ ''.'' @ c @ rest"
    and ne: "a \<noteq> []" "b \<noteq> []" "c \<noteq> []"
    and d: "list_all isDigit a" "list_all isDigit b" "list_all isDigit c"
    unfolding threeNumericComponents_def by blast
  have 1: "digitsThen (CHR ''.'') s = Some (a, b @ ''.'' @ c @ rest)"
    unfolding s using digitsThen_SomeI [OF ne(1) d(1) not_isDigit_dot] by simp
  have 2: "digitsThen (CHR ''.'') (b @ ''.'' @ c @ rest) = Some (b, c @ rest)"
    using digitsThen_SomeI [OF ne(2) d(2) not_isDigit_dot] by simp
  have 3: "takeWhile isDigit (c @ rest) \<noteq> []"
    using ne(3) d(3) by (cases c) auto
  show ?thesis
    unfolding versionRegex_FindStringSubmatch_def 1 using 2 3 by (simp add: Let_def)
qed

lemma getStatus_no_components:
  assumes "GetStatus mon = Inr status" "\<not> threeNumericComponents (Status_Version status)"
  shows "getStatus mon p = Inl (VersionUnexpected (Status_Version status))"
proof -
  from assms(2) have "versionRegex_FindStringSubmatch (Status_Version status) = []"
    using versionRegex_components by blast
  with assms(1) show ?thesis
    by (simp add: getStatus_def)
qed

lemma updateNetwork_frame [simp]:
  "priorCumulative (updateNetwork net p) = priorCumulative p"
  "cumulativePower (updateNetwork net p) = cumulativePower p"
  "flattenedVersion (updateNetwork net p) = flattenedVersion p"
  by (simp_all add: updateNetwork_def Let_def)

lemma fold_updateNetwork_frame [simp]:
  "priorCumulative (fold (\<lambda>(k, net). updateNetwork net) xs p) = priorCumulative p"
  "cumulativePower (fold (\<lambda>(k, net). updateNetwork net) xs p) = cumulativePower p"
  "flattenedVersion (fold (\<lambda>(k, net). updateNetwork net) xs p) = flattenedVersion p"
  by (induction xs arbitrary: p; simp add: split_beta)+

lemma setSiteMaster_frame [simp]:
  "priorCumulative (setSiteMaster p m) = priorCumulative p"
  "cumulativePower (setSiteMaster p m) = cumulativePower p"
  "flattenedVersion (setSiteMaster p m) = flattenedVersion p"
  by (simp_all add: setSiteMaster_def)

lemma setGrid_frame [simp]:
  "priorCumulative (setGrid p m) = priorCumulative p"
  "cumulativePower (setGrid p m) = cumulativePower p"
  "flattenedVersion (setGrid p m) = flattenedVersion p"
  by (simp_all add: setGrid_def)

lemma publishDelta_frame [simp]:
  "priorCumulative (fst (publishDelta mt dir delta p)) = priorCumulative p"
  "flattenedVersion (fst (publishDelta mt dir delta p)) = flattenedVersion p"
  by (simp_all add: publishDelta_def)

lemma updateMeter_flattened [simp]:
  "flattenedVersion (fst (snd (updateMeter fsub mt meter p))) = flattenedVersion p"
  by (simp add: updateMeter_def Let_def split_beta split: option.splits)

lemma meterLoop_flattened [simp]:
  "flattenedVersion (fst (snd (meterLoop fsub xs p))) = flattenedVersion p"
proof (induction xs arbitrary: p)
  case Nil
  then show ?case by simp
next
  case (Cons x xs)
  obtain mt meter where x: "x = (mt, meter)" by (cases x)
  obtain e p' lg where u: "updateMeter fsub mt meter p = (e, p', lg)" by (cases "updateMeter fsub mt meter p")
  have f: "flattenedVersion p' = flattenedVersion p"
    using updateMeter_flattened [of fsub mt meter p] u by simp
  show ?case
  proof (cases e)
    case None
    with x u f Cons.IH [of p'] show ?thesis by (simp add: split_beta)
  next
    case (Some err)
    with x u f show ?thesis by simp
  qed
qed

lemma Update_flattened:
  assumes "ParseInt (Sprintf_02d (Major (Version m)) @ Sprintf_02d (Minor (Version m))
             @ Sprintf_02d (Release (Version m))) = Inr flat"
  shows "flattenedVersion (fst (snd (Update fsub netOrder meterOrder p m))) = real_of_int flat"
proof -
  let ?q = "setSiteMaster (fold (\<lambda>(k, net). updateNetwork net)
              (rangeOver netOrder (NetworkInterfaces m))
              ((setScalars p m)\<lparr>flattenedVersion := real_of_int flat\<rparr>)) m"
  have q: "flattenedVersion ?q = real_of_int flat" by simp
  obtain e p' lg where l: "meterLoop fsub (rangeOver meterOrder (Meters m)) ?q = (e, p', lg)"
    by (cases "meterLoop fsub (rangeOver meterOrder (Meters m)) ?q")
  have "flattenedVersion p' = real_of_int flat"
    using meterLoop_flattened [of fsub "rangeOver meterOrder (Meters m)" ?q] l q by simp
  with assms l show ?thesis
    by (cases e) (simp_all add: Update_def Let_def)
qed

lemma flat_204903:
  "ParseInt (Sprintf_02d 20 @ Sprintf_02d 49 @ Sprintf_02d 3) = Inr 204903"
  by code_simp

text \<open>
  Claim C6. The version string \<open>"20.49.3"\<close> is projected to the major version 20, the
  minor version 49 and the release 3, and \<open>Update\<close> sets the flattened version of these
  three to 204903 (each component padded with zeros to two digits, the three
  concatenated and read as one integer). A version string without three leading numeric
  components separated by full stops makes \<open>getStatus\<close>, and with it \<open>Poll\<close>, fail with the
  error that carries the raw string.
\<close>

theorem version_projection:
  "(GetStatus mon = Inr status \<and> Status_Version status = ''20.49.3''
      \<longrightarrow> getStatus mon p
            = Inr (p\<lparr>Uptime := Status_UpTime status,
                     Version := \<lparr>Major = 20, Minor = 49, Release = 3\<rparr>\<rparr>)) \<and>
   (Version m = \<lparr>Major = 20, Minor = 49, Release = 3\<rparr>
      \<longrightarrow> flattenedVersion (fst (snd (Update fsub netOrder meterOrder pc m))) = 204903) \<and>
   (GetStatus mon = Inr status \<and> \<not> threeNumericComponents (Status_Version status)
      \<longrightarrow> getStatus mon p = Inl (VersionUnexpected (Status_Version status))) \<and>
   (GetOperation mon = Inr operation \<and> GetStatus mon = Inr status \<and>
    \<not> threeNumericComponents (Status_Version status)
      \<longrightarrow> Poll mon fixed = Inl (VersionUnexpected (Status_Version status)))"
proof -
  have v: "versionRegex_FindStringSubmatch ''20.49.3'' = [''20.49.3'', ''20'', ''49'', ''3'']"
    by code_simp
  have n: "ParseInt ''20'' = Inr 20" "ParseInt ''49'' = Inr 49" "ParseInt ''3'' = Inr 3"
    by code_simp+
  have a: "getStatus mon p
            = Inr (p\<lparr>Uptime := Status_UpTime status,
                     Version := \<lparr>Major = 20, Minor = 49, Release = 3\<rparr>\<rparr>)"
    if "GetStatus mon = Inr status" "Status_Version status = ''20.49.3''"
    using that by (simp add: getStatus_def v n)
  have b: "flattenedVersion (fst (snd (Update fsub netOrder meterOrder pc m))) = 204903"
    if "Version m = \<lparr>Major = 20, Minor = 49, Release = 3\<rparr>"
    using Update_flattened [of m 204903 fsub netOrder meterOrder pc] that flat_204903 by simp
  have c: "getStatus mon q = Inl (VersionUnexpected (Status_Version status))"
    if "GetStatus mon = Inr status" "\<not> threeNumericComponents (Status_Version status)" for q
    using that by (rule getStatus_no_components)
  have d: "Poll mon fixed = Inl (VersionUnexpected (Status_Version status))"
    if "GetOperation mon = Inr operation" "GetStatus mon = Inr status"
      "\<not> threeNumericComponents (Status_Version status)"
    using that c by (simp add: Poll_def getDynamicInfo_def getOperations_def)
  from a b c d show ?thesis by blast
qed

theorem version_projection_witness:
  "getStatus (sample_Monitor ''20.49.3'' (Inl (LibraryError []))) zeroMetrics
     = Inr (zeroMetrics\<lparr>Uptime := 518072539257895,
                        Version := \<lparr>Major = 20, Minor = 49, Release = 3\<rparr>\<rparr>) \<and>
   flattenedVersion (fst (snd (Update sample_fsub [] [] (New (Fixed zeroMetrics))
       (sample_metrics \<lparr>Major = 20, Minor = 49, Release = 3\<rparr> Map.empty)))) = 204903 \<and>
   Poll (sample_Monitor ''20.49'' (Inl (LibraryError []))) (Fixed zeroMetrics)
     = Inl (VersionUnexpected ''20.49'')"
proof -
  let ?ok = "sample_Monitor ''20.49.3'' (Inl (LibraryError []))"
  let ?bad = "sample_Monitor ''20.49'' (Inl (LibraryError []))"
  let ?st = "\<lambda>v. \<lparr>Status_StartTime = zeroTime, Status_UpTime = 518072539257895,
             Status_Version = v\<rparr>"
  let ?m = "sample_metrics \<lparr>Major = 20, Minor = 49, Release = 3\<rparr> Map.empty"
  have "versionRegex_FindStringSubmatch ''20.49'' = []"
    by code_simp
  then have n: "\<not> threeNumericComponents (Status_Version (?st ''20.49''))"
    using components_versionRegex [of "''20.49''"] by auto
  have g: "GetStatus ?ok = Inr (?st ''20.49.3'')" "GetStatus ?bad = Inr (?st ''20.49'')"
    "GetOperation ?bad
       = Inr \<lparr>Operation_RealMode = SelfConsumption, Operation_BackupReservePercent = 20\<rparr>"
    by (simp_all add: sample_Monitor_def)
  have vm: "Version ?m = \<lparr>Major = 20, Minor = 49, Release = 3\<rparr>"
    by (simp add: sample_metrics_def)
  note t1 = version_projection [of ?ok "?st ''20.49.3''" zeroMetrics ?m sample_fsub "[]" "[]"
      "New (Fixed zeroMetrics)"]
  note t2 = version_projection [of ?bad "?st ''20.49''" zeroMetrics ?m sample_fsub "[]" "[]"
      "New (Fixed zeroMetrics)"
      "\<lparr>Operation_RealMode = SelfConsumption, Operation_BackupReservePercent = 20\<rparr>"
      "Fixed zeroMetrics"]
  from t1 g(1) have 1: "getStatus ?ok zeroMetrics
     = Inr (zeroMetrics\<lparr>Uptime := 518072539257895,
                        Version := \<lparr>Major = 20, Minor = 49, Release = 3\<rparr>\<rparr>)"
    by simp
  from t1 vm have 2: "flattenedVersion (fst (snd (Update sample_fsub [] [] (New (Fixed zeroMetrics)) ?m)))
      = 204903"
    by blast
  from t2 g(2,3) n have 3: "Poll ?bad (Fixed zeroMetrics) = Inl (VersionUnexpected ''20.49'')"
    by simp
  from 1 2 3 show ?thesis by blast
qed

subsection \<open>The cumulative counters\<close>

text \<open>The deltas of the warnings that a log holds for one meter and one direction.\<close>

fun warned :: "view_log list \<Rightarrow> MeterType \<Rightarrow> string \<Rightarrow> float64 list" where
  "warned [] mt dir = []"
| "warned (Warningf_decreased mt' dir' d # lg) mt dir =
     (if mt' = mt \<and> dir' = dir then d # warned lg mt dir else warned lg mt dir)"

text \<open>
  What one \<open>Update\<close> does for one meter and one direction, between the state \<open>p\<close> before
  and the state \<open>p'\<close> after it, with the log \<open>lg\<close>, for the new cumulative reading \<open>C\<close>:
  with \<open>delta\<close> the \<open>float64\<close> difference of the reading and the stored value, the stored
  value becomes \<open>C\<close>; the counter is untouched when \<open>delta\<close> is below zero and gets the
  increment \<open>delta\<close> otherwise; and there is a warning, with \<open>delta\<close>, exactly when \<open>delta\<close>
  is below \<open>-epsilon\<close>.
\<close>

definition deltaPublished ::
  "(float64 \<Rightarrow> float64 \<Rightarrow> float64) \<Rightarrow> PrometheusCounters \<Rightarrow> PrometheusCounters
     \<Rightarrow> view_log list \<Rightarrow> MeterType \<Rightarrow> string \<Rightarrow> float64 \<Rightarrow> bool" where
  "deltaPublished fsub p p' lg mt dir C =
     (let delta = fsub C (priorGet (priorCumulative p) mt dir);
          k = (MeterType_String mt, dir)
      in priorGet (priorCumulative p') mt dir = C \<and>
         cumulativePower p' k
           = (if flt delta (Finite 0) then cumulativePower p k
              else Some (increments (cumulativePower p) k @ [delta])) \<and>
         warned lg mt dir = (if flt delta (Finite (- epsilon)) then [delta] else []))"

lemma warned_append [simp]: "warned (xs @ ys) mt dir = warned xs mt dir @ warned ys mt dir"
  by (induction xs mt dir rule: warned.induct) simp_all

lemma MeterType_String_inj: "MeterType_String x = MeterType_String y \<Longrightarrow> x = y"
  by (cases x; cases y) simp_all

lemma kTo_neq_kFrom [simp]: "kTo \<noteq> kFrom" "kFrom \<noteq> kTo"
  by (simp_all add: kTo_def kFrom_def)

lemma epsilon_pos: "0 < epsilon"
  by (simp add: epsilon_def)

text \<open>
  \<open>epsilon\<close> is a \<open>float64\<close> (53 bits at the exponent \<open>-69\<close>), it is less than half a unit
  in the last place away from 0.00001, and it is above 0.00001.
\<close>

lemma epsilon_float64:
  "(2::int) ^ 52 \<le> 5902958103587057 \<and> 5902958103587057 < (2::int) ^ 53 \<and>
   \<bar>epsilon - 0.00001\<bar> < 1 / 2 ^ 70 \<and> 0.00001 < epsilon"
  by (simp add: epsilon_def)

lemma flt_epsilon_zero: "flt x (Finite (- epsilon)) \<Longrightarrow> flt x (Finite 0)"
  using epsilon_pos by (cases x) simp_all

lemma fle_zero_not_flt: "fle (Finite 0) x \<Longrightarrow> \<not> flt x (Finite 0)"
  by (cases x) simp_all

lemma deltaPublished_cong:
  assumes "priorCumulative p mt = priorCumulative q mt"
    and "cumulativePower p (MeterType_String mt, dir) = cumulativePower q (MeterType_String mt, dir)"
    and "priorCumulative p' mt = priorCumulative q' mt"
    and "cumulativePower p' (MeterType_String mt, dir)
           = cumulativePower q' (MeterType_String mt, dir)"
    and "warned lg mt dir = warned lg' mt dir"
  shows "deltaPublished fsub p p' lg mt dir C = deltaPublished fsub q q' lg' mt dir C"
  using assms by (simp add: deltaPublished_def priorGet_def increments_def)

text \<open>The state after \<open>updateMeter\<close>, in the three fields that the claim is about.\<close>

lemma updateMeter_None:
  assumes "updateMeter fsub mt meter p = (None, p', lg)"
  obtains inner where "priorCumulative p mt = Some inner"
    and "priorCumulative p'
           = (priorCumulative p)(mt \<mapsto> inner(kTo \<mapsto> CumulativeEnergyTo meter,
                                              kFrom \<mapsto> CumulativeEnergyFrom meter))"
    and "cumulativePower p'
           = cumulativePower
               (fst (publishDelta mt kFrom
                       (fsub (CumulativeEnergyFrom meter) (priorGet (priorCumulative p) mt kFrom))
                       (fst (publishDelta mt kTo
                               (fsub (CumulativeEnergyTo meter) (priorGet (priorCumulative p) mt kTo))
                               p))))"
    and "lg = snd (publishDelta mt kTo
                     (fsub (CumulativeEnergyTo meter) (priorGet (priorCumulative p) mt kTo)) p)
              @ snd (publishDelta mt kFrom
                       (fsub (CumulativeEnergyFrom meter) (priorGet (priorCumulative p) mt kFrom)) p)"
proof (cases "priorCumulative p mt")
  case None
  with assms show ?thesis by (simp add: updateMeter_def Let_def)
next
  case (Some inner)
  with assms have
    "priorCumulative p'
           = (priorCumulative p)(mt \<mapsto> inner(kTo \<mapsto> CumulativeEnergyTo meter,
                                              kFrom \<mapsto> CumulativeEnergyFrom meter))"
    "cumulativePower p'
           = cumulativePower
               (fst (publishDelta mt kFrom
                       (fsub (CumulativeEnergyFrom meter) (priorGet (priorCumulative p) mt kFrom))
                       (fst (publishDelta mt kTo
                               (fsub (CumulativeEnergyTo meter) (priorGet (priorCumulative p) mt kTo))
                               p))))"
    "lg = snd (publishDelta mt kTo
                     (fsub (CumulativeEnergyTo meter) (priorGet (priorCumulative p) mt kTo)) p)
              @ snd (publishDelta mt kFrom
                       (fsub (CumulativeEnergyFrom meter) (priorGet (priorCumulative p) mt kFrom)) p)"
    by (auto simp add: updateMeter_def Let_def split_beta publishDelta_def priorGet_def)
  with Some that show ?thesis by blast
qed

lemma updateMeter_own:
  assumes "updateMeter fsub mt meter p = (None, p', lg)"
  shows "deltaPublished fsub p p' lg mt kTo (CumulativeEnergyTo meter)"
    and "deltaPublished fsub p p' lg mt kFrom (CumulativeEnergyFrom meter)"
proof -
  from assms obtain inner where i: "priorCumulative p mt = Some inner"
    and pc: "priorCumulative p'
           = (priorCumulative p)(mt \<mapsto> inner(kTo \<mapsto> CumulativeEnergyTo meter,
                                              kFrom \<mapsto> CumulativeEnergyFrom meter))"
    and cp: "cumulativePower p'
           = cumulativePower
               (fst (publishDelta mt kFrom
                       (fsub (CumulativeEnergyFrom meter) (priorGet (priorCumulative p) mt kFrom))
                       (fst (publishDelta mt kTo
                               (fsub (CumulativeEnergyTo meter) (priorGet (priorCumulative p) mt kTo))
                               p))))"
    and lg: "lg = snd (publishDelta mt kTo
                     (fsub (CumulativeEnergyTo meter) (priorGet (priorCumulative p) mt kTo)) p)
              @ snd (publishDelta mt kFrom
                       (fsub (CumulativeEnergyFrom meter) (priorGet (priorCumulative p) mt kFrom)) p)"
    by (rule updateMeter_None)
  have k: "(MeterType_String mt, kTo) \<noteq> (MeterType_String mt, kFrom)"
    by simp
  show "deltaPublished fsub p p' lg mt kTo (CumulativeEnergyTo meter)"
    unfolding deltaPublished_def Let_def pc cp lg
    using flt_epsilon_zero
    by (auto simp add: publishDelta_def priorGet_def counterAdd_def increments_def)
  show "deltaPublished fsub p p' lg mt kFrom (CumulativeEnergyFrom meter)"
    unfolding deltaPublished_def Let_def pc cp lg
    using flt_epsilon_zero
    by (auto simp add: publishDelta_def priorGet_def counterAdd_def increments_def)
qed

lemma publishDelta_other:
  "mt' \<noteq> mt \<Longrightarrow>
   cumulativePower (fst (publishDelta mt' d delta p)) (MeterType_String mt, dir)
     = cumulativePower p (MeterType_String mt, dir) \<and>
   warned (snd (publishDelta mt' d delta p)) mt dir = []"
  by (auto simp add: publishDelta_def counterAdd_def dest: MeterType_String_inj)

lemma updateMeter_other:
  assumes "mt' \<noteq> mt" "updateMeter fsub mt' meter p = (e, p', lg)"
  shows "priorCumulative p' mt = priorCumulative p mt \<and>
    cumulativePower p' (MeterType_String mt, dir) = cumulativePower p (MeterType_String mt, dir) \<and>
    warned lg mt dir = []"
proof (cases "priorCumulative p mt'")
  case None
  with assms show ?thesis by (auto simp add: updateMeter_def Let_def)
next
  case (Some inner)
  with assms show ?thesis
    using publishDelta_other [OF assms(1)]
    by (auto simp add: updateMeter_def Let_def split_beta)
qed

lemma meterLoop_other:
  assumes "mt \<notin> fst ` set xs" "meterLoop fsub xs p = (e, p', lg)"
  shows "priorCumulative p' mt = priorCumulative p mt \<and>
    cumulativePower p' (MeterType_String mt, dir) = cumulativePower p (MeterType_String mt, dir) \<and>
    warned lg mt dir = []"
  using assms
proof (induction xs arbitrary: p e p' lg)
  case Nil
  then show ?case by simp
next
  case (Cons x xs)
  obtain mt0 meter0 where x: "x = (mt0, meter0)" by (cases x)
  obtain e1 p1 lg1 where u: "updateMeter fsub mt0 meter0 p = (e1, p1, lg1)"
    by (cases "updateMeter fsub mt0 meter0 p")
  from Cons.prems(1) x have ne: "mt0 \<noteq> mt" and rest: "mt \<notin> fst ` set xs"
    by auto
  note o = updateMeter_other [OF ne u, of dir]
  show ?case
  proof (cases e1)
    case (Some err)
    with Cons.prems(2) x u have "p' = p1" "lg = lg1" by simp_all
    with o show ?thesis by simp
  next
    case None
    obtain e2 p2 lg2 where l: "meterLoop fsub xs p1 = (e2, p2, lg2)"
      by (cases "meterLoop fsub xs p1")
    with None Cons.prems(2) x u have "p' = p2" "lg = lg1 @ lg2" by simp_all
    with o Cons.IH [OF rest l] show ?thesis by simp
  qed
qed

lemma meterLoop_own:
  assumes "distinct (map fst xs)" "(mt, meter) \<in> set xs" "meterLoop fsub xs p = (None, p', lg)"
  shows "deltaPublished fsub p p' lg mt kTo (CumulativeEnergyTo meter) \<and>
         deltaPublished fsub p p' lg mt kFrom (CumulativeEnergyFrom meter)"
  using assms
proof (induction xs arbitrary: p p' lg)
  case Nil
  then show ?case by simp
next
  case (Cons x xs)
  obtain mt0 meter0 where x: "x = (mt0, meter0)" by (cases x)
  obtain e1 p1 lg1 where u: "updateMeter fsub mt0 meter0 p = (e1, p1, lg1)"
    by (cases "updateMeter fsub mt0 meter0 p")
  obtain e2 p2 lg2 where l: "meterLoop fsub xs p1 = (e2, p2, lg2)"
    by (cases "meterLoop fsub xs p1")
  from Cons.prems(3) x u l have e1: "e1 = None" and e2: "e2 = None"
    and p': "p' = p2" and lg: "lg = lg1 @ lg2"
    by (cases e1; simp)+
  from Cons.prems(1) x have d: "mt0 \<notin> fst ` set xs" "distinct (map fst xs)"
    by simp_all
  show ?case
  proof (cases "mt0 = mt")
    case True
    with d(1) Cons.prems(2) x have m: "meter0 = meter"
      by (auto simp add: image_iff)
    from True d(1) have "mt \<notin> fst ` set xs" by simp
    note f = meterLoop_other [OF this l]
    from u e1 True m have own: "deltaPublished fsub p p1 lg1 mt kTo (CumulativeEnergyTo meter)"
      "deltaPublished fsub p p1 lg1 mt kFrom (CumulativeEnergyFrom meter)"
      by (auto intro: updateMeter_own)
    have "deltaPublished fsub p p' lg mt dir C = deltaPublished fsub p p1 lg1 mt dir C" for dir C
      by (rule deltaPublished_cong) (simp_all add: p' lg f [of dir])
    with own show ?thesis by simp
  next
    case False
    with Cons.prems(2) x have mem: "(mt, meter) \<in> set xs" by auto
    note o = updateMeter_other [OF False u]
    from l e2 have l': "meterLoop fsub xs p1 = (None, p2, lg2)" by simp
    note ih = Cons.IH [OF d(2) mem l']
    have "deltaPublished fsub p p' lg mt dir C = deltaPublished fsub p1 p2 lg2 mt dir C" for dir C
      by (rule deltaPublished_cong) (simp_all add: p' lg o [of dir])
    with ih show ?thesis by simp
  qed
qed

lemma rangeOver_keys: "map fst (rangeOver order m) = filter (\<lambda>k. m k \<noteq> None) order"
  by (induction order) (auto simp add: rangeOver_def List.map_filter_simps split: option.splits)

lemma rangeOver_member:
  "k \<in> set order \<Longrightarrow> m k = Some v \<Longrightarrow> (k, v) \<in> set (rangeOver order m)"
  by (induction order) (auto simp add: rangeOver_def List.map_filter_simps split: option.splits)

lemma Update_None:
  assumes "Update fsub netOrder meterOrder p m = (None, p', lg)"
  obtains q p'' where "priorCumulative q = priorCumulative p"
    and "cumulativePower q = cumulativePower p"
    and "meterLoop fsub (rangeOver meterOrder (Meters m)) q = (None, p'', lg)"
    and "p' = setGrid p'' m"
proof (cases "ParseInt (Sprintf_02d (Major (Version m)) @ Sprintf_02d (Minor (Version m))
             @ Sprintf_02d (Release (Version m)))")
  case (Inl err)
  with assms show ?thesis by (simp add: Update_def)
next
  case (Inr flat)
  let ?q = "setSiteMaster (fold (\<lambda>(k, net). updateNetwork net)
              (rangeOver netOrder (NetworkInterfaces m))
              ((setScalars p m)\<lparr>flattenedVersion := real_of_int flat\<rparr>)) m"
  obtain e p'' lg' where l: "meterLoop fsub (rangeOver meterOrder (Meters m)) ?q = (e, p'', lg')"
    by (cases "meterLoop fsub (rangeOver meterOrder (Meters m)) ?q")
  from assms Inr l have "e = None" "lg' = lg" "p' = setGrid p'' m"
    by (cases e; simp add: Update_def Let_def)+
  moreover have "priorCumulative ?q = priorCumulative p" "cumulativePower ?q = cumulativePower p"
    by simp_all
  ultimately show ?thesis using l that by blast
qed

lemma updateMeter_ok:
  assumes "priorCumulative p mt = Some inner"
  shows "fst (updateMeter fsub mt meter p) = None \<and>
         dom (priorCumulative (fst (snd (updateMeter fsub mt meter p)))) = dom (priorCumulative p)"
  using assms by (auto simp add: updateMeter_def Let_def split_beta)

lemma meterLoop_ok:
  assumes "fst ` set xs \<subseteq> dom (priorCumulative p)"
  shows "fst (meterLoop fsub xs p) = None \<and>
         dom (priorCumulative (fst (snd (meterLoop fsub xs p)))) = dom (priorCumulative p)"
  using assms
proof (induction xs arbitrary: p)
  case Nil
  then show ?case by simp
next
  case (Cons x xs)
  obtain mt0 meter0 where x: "x = (mt0, meter0)" by (cases x)
  from Cons.prems x obtain inner where i: "priorCumulative p mt0 = Some inner"
    by auto
  obtain e1 p1 lg1 where u: "updateMeter fsub mt0 meter0 p = (e1, p1, lg1)"
    by (cases "updateMeter fsub mt0 meter0 p")
  from updateMeter_ok [OF i, of fsub meter0] u
  have e1: "e1 = None" and d: "dom (priorCumulative p1) = dom (priorCumulative p)"
    by simp_all
  from Cons.prems x d have "fst ` set xs \<subseteq> dom (priorCumulative p1)"
    by simp
  from Cons.IH [OF this] x u e1 d show ?case
    by (simp add: split_beta)
qed

text \<open>
  \<open>Update\<close> returns no error when the flattened version parses and \<open>priorCumulative\<close> has an
  inner map for every meter of the metrics, as it has in the state that \<open>New\<close> returns and
  in every state that \<open>Update\<close> returns from it.
\<close>

lemma Update_succeeds:
  assumes "ParseInt (Sprintf_02d (Major (Version m)) @ Sprintf_02d (Minor (Version m))
             @ Sprintf_02d (Release (Version m))) = Inr flat"
    and "dom (Meters m) \<subseteq> dom (priorCumulative p)"
  shows "fst (Update fsub netOrder meterOrder p m) = None \<and>
         dom (priorCumulative (fst (snd (Update fsub netOrder meterOrder p m))))
           = dom (priorCumulative p)"
proof -
  let ?q = "setSiteMaster (fold (\<lambda>(k, net). updateNetwork net)
              (rangeOver netOrder (NetworkInterfaces m))
              ((setScalars p m)\<lparr>flattenedVersion := real_of_int flat\<rparr>)) m"
  have q: "priorCumulative ?q = priorCumulative p" by simp
  have "fst ` set (rangeOver meterOrder (Meters m))
          = set (filter (\<lambda>k. Meters m k \<noteq> None) meterOrder)"
    using rangeOver_keys [of meterOrder "Meters m"] by (metis list.set_map)
  then have "fst ` set (rangeOver meterOrder (Meters m)) \<subseteq> dom (Meters m)"
    by auto
  with assms(2) q have "fst ` set (rangeOver meterOrder (Meters m)) \<subseteq> dom (priorCumulative ?q)"
    by simp
  from meterLoop_ok [OF this] q assms(1) show ?thesis
    by (simp add: Update_def Let_def split_beta)
qed

lemma New_priorCumulative: "dom (priorCumulative (New fixed)) = UNIV"
proof -
  have "priorCumulative (New fixed) mt \<noteq> None" for mt
    by (cases mt) (simp_all add: New_def)
  then show ?thesis by auto
qed

lemma Update_deltaPublished:
  assumes "Update fsub netOrder meterOrder p m = (None, p', lg)"
    and "distinct meterOrder" and "mt \<in> set meterOrder" and "Meters m mt = Some meter"
  shows "deltaPublished fsub p p' lg mt kTo (CumulativeEnergyTo meter)"
    and "deltaPublished fsub p p' lg mt kFrom (CumulativeEnergyFrom meter)"
proof -
  from assms(1) obtain q p'' where q: "priorCumulative q = priorCumulative p"
    "cumulativePower q = cumulativePower p"
    and l: "meterLoop fsub (rangeOver meterOrder (Meters m)) q = (None, p'', lg)"
    and p': "p' = setGrid p'' m"
    by (rule Update_None)
  have "distinct (map fst (rangeOver meterOrder (Meters m)))"
    using assms(2) by (simp add: rangeOver_keys)
  moreover have "(mt, meter) \<in> set (rangeOver meterOrder (Meters m))"
    using assms(3,4) by (rule rangeOver_member)
  ultimately have "deltaPublished fsub q p'' lg mt kTo (CumulativeEnergyTo meter) \<and>
         deltaPublished fsub q p'' lg mt kFrom (CumulativeEnergyFrom meter)"
    using l by (rule meterLoop_own)
  moreover have "deltaPublished fsub q p'' lg mt dir C = deltaPublished fsub p p' lg mt dir C"
    for dir C
    by (rule deltaPublished_cong) (simp_all add: q p')
  ultimately show "deltaPublished fsub p p' lg mt kTo (CumulativeEnergyTo meter)"
    and "deltaPublished fsub p p' lg mt kFrom (CumulativeEnergyFrom meter)"
    by simp_all
qed

text \<open>
  The state at the threshold: the value stored for the site meter in the direction
  \<open>to\<close> is the \<open>float64\<close> that the reading 0.00001 decodes to, and the new reading is 0.
  The delta is the stored value negated (the subtraction of IEEE 754 is exact here).
\<close>

definition threshold_view :: PrometheusCounters where
  "threshold_view =
     (New (Fixed zeroMetrics))
       \<lparr>priorCumulative :=
          [Total \<mapsto> [kTo \<mapsto> Finite epsilon, kFrom \<mapsto> Finite 0], Solar \<mapsto> Map.empty,
           Battery \<mapsto> Map.empty, Load \<mapsto> Map.empty]\<rparr>"

definition threshold_reading :: TeslaEnergyGatewayMetrics where
  "threshold_reading =
     sample_metrics \<lparr>Major = 20, Minor = 49, Release = 3\<rparr>
       [Total \<mapsto> sample_meter (Finite 0) (Finite 0)]"

lemma flat_threshold_reading:
  "ParseInt (Sprintf_02d (Major (Version threshold_reading))
             @ Sprintf_02d (Minor (Version threshold_reading))
             @ Sprintf_02d (Release (Version threshold_reading))) = Inr 204903"
  by (simp add: threshold_reading_def sample_metrics_def flat_204903)

text \<open>
  Claim C1, as the specification states it, fails at the threshold: with the stored
  value \<open>epsilon\<close> and the reading 0, the delta \<open>0 - epsilon\<close> is below \<open>-0.00001\<close>, and
  \<open>Update\<close> logs no warning, because the delta is not below the \<open>float64\<close> that the
  program compares it with.
\<close>

theorem warning_threshold_counterexample:
  "priorGet (priorCumulative threshold_view) Total kTo = Finite epsilon \<and>
   Meters threshold_reading Total = Some (sample_meter (Finite 0) (Finite 0)) \<and>
   CumulativeEnergyTo (sample_meter (Finite 0) (Finite 0)) = Finite 0 \<and>
   sample_fsub (Finite 0) (Finite epsilon) = Finite (0 - epsilon) \<and>
   0 - epsilon < - 0.00001 \<and>
   fst (Update sample_fsub [] [Total] threshold_view threshold_reading) = None \<and>
   warned (snd (snd (Update sample_fsub [] [Total] threshold_view threshold_reading))) Total kTo
     = []"
proof -
  have pc: "priorCumulative threshold_view
      = [Total \<mapsto> [kTo \<mapsto> Finite epsilon, kFrom \<mapsto> Finite 0], Solar \<mapsto> Map.empty,
         Battery \<mapsto> Map.empty, Load \<mapsto> Map.empty]"
    by (simp add: threshold_view_def)
  have ms: "Meters threshold_reading = [Total \<mapsto> sample_meter (Finite 0) (Finite 0)]"
    by (simp add: threshold_reading_def sample_metrics_def)
  have P: "priorGet (priorCumulative threshold_view) Total kTo = Finite epsilon"
    by (simp add: pc priorGet_def)
  have C: "CumulativeEnergyTo (sample_meter (Finite 0) (Finite 0)) = Finite 0"
    by (simp add: sample_meter_def)
  have "dom (Meters threshold_reading) \<subseteq> dom (priorCumulative threshold_view)"
    unfolding ms pc by simp
  with flat_threshold_reading
  have ok: "fst (Update sample_fsub [] [Total] threshold_view threshold_reading) = None"
    using Update_succeeds by blast
  then obtain p' lg where
    u: "Update sample_fsub [] [Total] threshold_view threshold_reading = (None, p', lg)"
    by (cases "Update sample_fsub [] [Total] threshold_view threshold_reading") auto
  have "deltaPublished sample_fsub threshold_view p' lg Total kTo
          (CumulativeEnergyTo (sample_meter (Finite 0) (Finite 0)))"
    by (rule Update_deltaPublished(1) [OF u]) (simp_all add: ms)
  then have "warned lg Total kTo = []"
    by (simp add: deltaPublished_def Let_def P C)
  moreover have "0 - epsilon < - 0.00001"
    using epsilon_float64 by simp
  ultimately show ?thesis
    using u P C by (simp add: ms)
qed

text \<open>
  Claim C1, amended. Let \<open>Update\<close> return without error, and let the loop over the meters
  visit every key once. For every meter \<open>mt\<close> of the metrics and for each of the two
  directions, with \<open>P\<close> the value stored before the call, \<open>C\<close> the cumulative reading of the
  metrics and \<open>delta\<close> the \<open>float64\<close> difference of \<open>C\<close> and \<open>P\<close>: the value stored after the
  call is \<open>C\<close> in every case; when \<open>delta >= 0\<close>, the counter of the meter and the
  direction gets the increment \<open>delta\<close>; when \<open>delta < 0\<close>, the counter is untouched; and
  the call logs a warning for the meter and the direction, with \<open>delta\<close>, exactly when
  \<open>delta\<close> is below the negated \<open>float64\<close> nearest to 0.00001, which is
  \<open>5902958103587057 / 2^69\<close>.
\<close>

theorem Update_cumulative_delta:
  assumes "Update fsub netOrder meterOrder p m = (None, p', lg)"
    and "distinct meterOrder" and "mt \<in> set meterOrder" and "Meters m mt = Some meter"
  shows
    "(let P = priorGet (priorCumulative p) mt kTo; C = CumulativeEnergyTo meter;
          delta = fsub C P; k = (MeterType_String mt, kTo)
      in priorGet (priorCumulative p') mt kTo = C \<and>
         (fle (Finite 0) delta
            \<longrightarrow> cumulativePower p' k = Some (increments (cumulativePower p) k @ [delta])) \<and>
         (flt delta (Finite 0) \<longrightarrow> cumulativePower p' k = cumulativePower p k) \<and>
         warned lg mt kTo
           = (if flt delta (Finite (- (5902958103587057 / 2 ^ 69))) then [delta] else [])) \<and>
     (let P = priorGet (priorCumulative p) mt kFrom; C = CumulativeEnergyFrom meter;
          delta = fsub C P; k = (MeterType_String mt, kFrom)
      in priorGet (priorCumulative p') mt kFrom = C \<and>
         (fle (Finite 0) delta
            \<longrightarrow> cumulativePower p' k = Some (increments (cumulativePower p) k @ [delta])) \<and>
         (flt delta (Finite 0) \<longrightarrow> cumulativePower p' k = cumulativePower p k) \<and>
         warned lg mt kFrom
           = (if flt delta (Finite (- (5902958103587057 / 2 ^ 69))) then [delta] else []))"
proof -
  have "deltaPublished fsub p p' lg mt kTo (CumulativeEnergyTo meter)"
    and "deltaPublished fsub p p' lg mt kFrom (CumulativeEnergyFrom meter)"
    using assms by (rule Update_deltaPublished)+
  then show ?thesis
    unfolding deltaPublished_def Let_def epsilon_def
    using fle_zero_not_flt by auto
qed

text \<open>
  An example after the one of the specification, with readings that are \<open>float64\<close> values
  and have \<open>float64\<close> differences: the site meter with the stored values 100 (to) and
  100.5 (from) and one increment of each counter; the new readings are 100.5 (to) and
  100.25 (from). The delta 0.5 is published, the delta -0.25 gives a warning, and both
  stored values are the readings.
\<close>

definition sample_view :: PrometheusCounters where
  "sample_view =
     (New (Fixed zeroMetrics))
       \<lparr>priorCumulative :=
          [Total \<mapsto> [kTo \<mapsto> Finite 100, kFrom \<mapsto> Finite (201 / 2)], Solar \<mapsto> Map.empty,
           Battery \<mapsto> Map.empty, Load \<mapsto> Map.empty],
        cumulativePower :=
          [(''site'', kTo) \<mapsto> [Finite 100], (''site'', kFrom) \<mapsto> [Finite (201 / 2)]]\<rparr>"

definition sample_reading :: TeslaEnergyGatewayMetrics where
  "sample_reading =
     sample_metrics \<lparr>Major = 20, Minor = 49, Release = 3\<rparr>
       [Total \<mapsto> sample_meter (Finite (201 / 2)) (Finite (401 / 4))]"

theorem Update_cumulative_delta_witness:
  "fst (Update sample_fsub [] [Total] sample_view sample_reading) = None \<and>
   priorGet (priorCumulative (fst (snd (Update sample_fsub [] [Total] sample_view
          sample_reading)))) Total kTo = Finite (201 / 2) \<and>
   cumulativePower (fst (snd (Update sample_fsub [] [Total] sample_view
          sample_reading))) (''site'', kTo) = Some [Finite 100, Finite (1 / 2)] \<and>
   warned (snd (snd (Update sample_fsub [] [Total] sample_view
          sample_reading))) Total kTo = [] \<and>
   priorGet (priorCumulative (fst (snd (Update sample_fsub [] [Total] sample_view
          sample_reading)))) Total kFrom = Finite (401 / 4) \<and>
   cumulativePower (fst (snd (Update sample_fsub [] [Total] sample_view
          sample_reading))) (''site'', kFrom) = Some [Finite (201 / 2)] \<and>
   warned (snd (snd (Update sample_fsub [] [Total] sample_view
          sample_reading))) Total kFrom = [Finite (- (1 / 4))]"
proof -
  let ?m = sample_reading
  have v: "Version ?m = \<lparr>Major = 20, Minor = 49, Release = 3\<rparr>"
    and ms: "Meters ?m = [Total \<mapsto> sample_meter (Finite (201 / 2)) (Finite (401 / 4))]"
    by (simp_all add: sample_metrics_def sample_reading_def)
  have pc: "priorCumulative sample_view
      = [Total \<mapsto> [kTo \<mapsto> Finite 100, kFrom \<mapsto> Finite (201 / 2)], Solar \<mapsto> Map.empty,
         Battery \<mapsto> Map.empty, Load \<mapsto> Map.empty]"
    and cp: "cumulativePower sample_view
      = [(''site'', kTo) \<mapsto> [Finite 100], (''site'', kFrom) \<mapsto> [Finite (201 / 2)]]"
    by (simp_all add: sample_view_def)
  have "ParseInt (Sprintf_02d (Major (Version ?m)) @ Sprintf_02d (Minor (Version ?m))
             @ Sprintf_02d (Release (Version ?m))) = Inr 204903"
    unfolding v by (simp add: flat_204903)
  moreover have "dom (Meters ?m) \<subseteq> dom (priorCumulative sample_view)"
    unfolding ms pc by simp
  ultimately have ok: "fst (Update sample_fsub [] [Total] sample_view ?m) = None"
    using Update_succeeds by blast
  then obtain p' lg where u: "Update sample_fsub [] [Total] sample_view ?m = (None, p', lg)"
    by (cases "Update sample_fsub [] [Total] sample_view ?m") auto
  have mt: "Meters ?m Total = Some (sample_meter (Finite (201 / 2)) (Finite (401 / 4)))"
    unfolding ms by simp
  have P: "priorGet (priorCumulative sample_view) Total kTo = Finite 100"
    "priorGet (priorCumulative sample_view) Total kFrom = Finite (201 / 2)"
    by (simp_all add: pc priorGet_def)
  from Update_cumulative_delta [OF u _ _ mt]
  have "priorGet (priorCumulative p') Total kTo = Finite (201 / 2) \<and>
    cumulativePower p' (''site'', kTo) = Some [Finite 100, Finite (1 / 2)] \<and>
    warned lg Total kTo = [] \<and>
    priorGet (priorCumulative p') Total kFrom = Finite (401 / 4) \<and>
    cumulativePower p' (''site'', kFrom) = Some [Finite (201 / 2)] \<and>
    warned lg Total kFrom = [Finite (- (1 / 4))]"
    by (simp add: Let_def P cp sample_meter_def increments_def)
  with u show ?thesis by simp
qed

end
